theory Spec2Isabelle
  imports Complex_Main "HOL-Library.Sublist" "HOL-Library.List_Lexorder" "HOL-Library.Char_ord"
    "HOL-Library.Option_ord"
begin

chapter \<open>The model of the gateway\<close>

section \<open>JavaScript strings\<close>

text \<open>
  A JavaScript string is modelled as a \<^typ>\<open>string\<close>: a list of code units. The
  operations below are the ones \<^verbatim>\<open>index.js\<close> calls on strings:
  \<^verbatim>\<open>toLowerCase\<close>, \<^verbatim>\<open>startsWith\<close> (the library's \<^const>\<open>prefix\<close>),
  \<^verbatim>\<open>includes\<close>, \<^verbatim>\<open>split('\n')\<close>, \<^verbatim>\<open>join('\n')\<close>, \<^verbatim>\<open>trim\<close>,
  \<^verbatim>\<open>substring(0, n)\<close> (the library's \<^const>\<open>take\<close>) and \<^verbatim>\<open>slice(n)\<close>
  (the library's \<^const>\<open>drop\<close>). Case mapping and white space are those of ASCII.
\<close>

definition toLowerChar :: "char \<Rightarrow> char" where
  "toLowerChar c =
     (case map_of (zip ''ABCDEFGHIJKLMNOPQRSTUVWXYZ'' ''abcdefghijklmnopqrstuvwxyz'') c of
        Some d \<Rightarrow> d
      | None \<Rightarrow> c)"

definition toLowerCase :: "string \<Rightarrow> string" where
  "toLowerCase s = map toLowerChar s"

text \<open>\<^verbatim>\<open>s.includes(k)\<close>: \<open>k\<close> occurs in \<open>s\<close> as a contiguous run.\<close>

fun str_includes :: "string \<Rightarrow> string \<Rightarrow> bool" where
  "str_includes [] k = (k = [])"
| "str_includes (c # s) k = (prefix k (c # s) \<or> str_includes s k)"

section \<open>Provider registry\<close>

text \<open>
  \<^verbatim>\<open>
  function detectProviderFromModel(model) {
    if (!model) return 'openai';
    model = model.toLowerCase();
    if (model.startsWith('gpt-') || model.startsWith('o1') || model.includes('openai')) return 'openai';
    if (model.startsWith('claude-')) return 'anthropic';
    if (model.startsWith('gemini-')) return 'google';
    if (model.startsWith('grok-')) return 'xai';
    if (model.includes('/')) return 'openrouter';
    return 'openai';
  }
  \<close>
  The empty string is the falsy string.
\<close>

definition detectProviderFromModel :: "string \<Rightarrow> string" where
  "detectProviderFromModel model0 =
     (if model0 = [] then ''openai''
      else let model = toLowerCase model0 in
        if prefix ''gpt-'' model \<or> prefix ''o1'' model \<or> str_includes model ''openai''
          then ''openai''
        else if prefix ''claude-'' model then ''anthropic''
        else if prefix ''gemini-'' model then ''google''
        else if prefix ''grok-'' model then ''xai''
        else if str_includes model ''/'' then ''openrouter''
        else ''openai'')"

section \<open>Cost accountant\<close>

text \<open>
  A JavaScript number is modelled as an exact rational, or \<open>NaN\<close>: the rounding of
  doubles is left out, \<open>NaN\<close> is kept, since every comparison with it is false.
\<close>

datatype number = NaN | Num rat

fun js_le :: "number \<Rightarrow> number \<Rightarrow> bool" where
  "js_le (Num a) (Num b) = (a \<le> b)"
| "js_le _ _ = False"

record rates =
  "input" :: rat
  "output" :: rat

text \<open>
  The cost tables are object literals, and \<^verbatim>\<open>TABLE[model]\<close> is a property read: it
  finds the table's own entry, or else a member that every object inherits from
  \<^verbatim>\<open>Object.prototype\<close>. Such a member is a function (the prototype object itself
  for \<^verbatim>\<open>__proto__\<close>): it is truthy and has no \<^verbatim>\<open>input\<close> or \<^verbatim>\<open>output\<close>.
\<close>

definition Object_prototype_keys :: "string list" where
  "Object_prototype_keys =
     [''constructor'', ''__defineGetter__'', ''__defineSetter__'', ''hasOwnProperty'',
      ''__lookupGetter__'', ''__lookupSetter__'', ''isPrototypeOf'', ''propertyIsEnumerable'',
      ''toString'', ''valueOf'', ''__proto__'', ''toLocaleString'']"

datatype 'a property = Own 'a | Inherited

definition obj_get :: "(string \<times> 'a) list \<Rightarrow> string \<Rightarrow> 'a property option" where
  "obj_get tbl k =
     (case map_of tbl k of
        Some v \<Rightarrow> Some (Own v)
      | None \<Rightarrow> if k \<in> set Object_prototype_keys then Some Inherited else None)"

definition MODEL_COSTS :: "(string \<times> rates) list" where
  "MODEL_COSTS =
     [(''gpt-4'', \<lparr>input = 3 / 100, output = 6 / 100\<rparr>),
      (''gpt-4-32k'', \<lparr>input = 6 / 100, output = 12 / 100\<rparr>),
      (''gpt-4-turbo'', \<lparr>input = 1 / 100, output = 3 / 100\<rparr>),
      (''gpt-4o'', \<lparr>input = 5 / 1000, output = 15 / 1000\<rparr>),
      (''gpt-4o-mini'', \<lparr>input = 15 / 100000, output = 6 / 10000\<rparr>),
      (''gpt-3.5-turbo'', \<lparr>input = 5 / 10000, output = 15 / 10000\<rparr>),
      (''o1-preview'', \<lparr>input = 15 / 1000, output = 6 / 100\<rparr>),
      (''o1-mini'', \<lparr>input = 3 / 1000, output = 12 / 1000\<rparr>),
      (''o1'', \<lparr>input = 15 / 1000, output = 6 / 100\<rparr>),
      (''claude-3-5-sonnet-20240620'', \<lparr>input = 3 / 1000, output = 15 / 1000\<rparr>),
      (''claude-3-5-sonnet-20241022'', \<lparr>input = 3 / 1000, output = 15 / 1000\<rparr>),
      (''claude-3-5-haiku-20241022'', \<lparr>input = 1 / 1000, output = 5 / 1000\<rparr>),
      (''claude-3-opus-20240229'', \<lparr>input = 15 / 1000, output = 75 / 1000\<rparr>),
      (''claude-3-sonnet-20240229'', \<lparr>input = 3 / 1000, output = 15 / 1000\<rparr>),
      (''claude-3-haiku-20240307'', \<lparr>input = 25 / 100000, output = 125 / 100000\<rparr>),
      (''gemini-pro'', \<lparr>input = 25 / 100000, output = 5 / 10000\<rparr>),
      (''gemini-1.5-pro'', \<lparr>input = 125 / 100000, output = 5 / 1000\<rparr>),
      (''gemini-1.5-flash'', \<lparr>input = 75 / 1000000, output = 3 / 10000\<rparr>),
      (''grok-beta'', \<lparr>input = 5 / 1000, output = 15 / 1000\<rparr>),
      (''grok-2'', \<lparr>input = 2 / 1000, output = 1 / 100\<rparr>)]"

text \<open>
  \<^verbatim>\<open>
  function calculateCost(model, inputTokens, outputTokens) {
    const costs = MODEL_COSTS[model];
    if (!costs) {
      const matchedKey = Object.keys(MODEL_COSTS).find(key => model.includes(key) || key.includes(model));
      if (matchedKey) {
        const matchedCosts = MODEL_COSTS[matchedKey];
        return (inputTokens / 1000) * matchedCosts.input + (outputTokens / 1000) * matchedCosts.output;
      }
      return 0;
    }
    return (inputTokens / 1000) * costs.input + (outputTokens / 1000) * costs.output;
  }
  \<close>
  \<^verbatim>\<open>Object.keys\<close> lists the own keys in the order of the literal. Arithmetic on the
  \<^verbatim>\<open>undefined\<close> fields of an inherited member gives \<open>NaN\<close>.
\<close>

definition calculateCost :: "string \<Rightarrow> rat \<Rightarrow> rat \<Rightarrow> number" where
  "calculateCost mdl inputTokens outputTokens =
     (case obj_get MODEL_COSTS mdl of
        None \<Rightarrow>
          (case find (\<lambda>(key, _). str_includes mdl key \<or> str_includes key mdl) MODEL_COSTS of
             Some (_, matchedCosts) \<Rightarrow>
               Num ((inputTokens / 1000) * input matchedCosts
                    + (outputTokens / 1000) * output matchedCosts)
           | None \<Rightarrow> Num 0)
      | Some (Own costs) \<Rightarrow>
          Num ((inputTokens / 1000) * input costs + (outputTokens / 1000) * output costs)
      | Some Inherited \<Rightarrow> NaN)"

definition ANTHROPIC_COSTS :: "(string \<times> rates) list" where
  "ANTHROPIC_COSTS =
     [(''claude-opus-4'', \<lparr>input = 15, output = 75\<rparr>),
      (''claude-opus-4-20250514'', \<lparr>input = 15, output = 75\<rparr>),
      (''claude-sonnet-4'', \<lparr>input = 3, output = 15\<rparr>),
      (''claude-sonnet-4-20250514'', \<lparr>input = 3, output = 15\<rparr>),
      (''claude-3-7-sonnet'', \<lparr>input = 3, output = 15\<rparr>),
      (''claude-3-7-sonnet-20250219'', \<lparr>input = 3, output = 15\<rparr>),
      (''claude-3-5-sonnet'', \<lparr>input = 3, output = 15\<rparr>),
      (''claude-3-5-sonnet-20240620'', \<lparr>input = 3, output = 15\<rparr>),
      (''claude-3-5-sonnet-20241022'', \<lparr>input = 3, output = 15\<rparr>),
      (''claude-3-5-haiku'', \<lparr>input = 8 / 10, output = 4\<rparr>),
      (''claude-3-5-haiku-20241022'', \<lparr>input = 8 / 10, output = 4\<rparr>),
      (''claude-3-opus'', \<lparr>input = 15, output = 75\<rparr>),
      (''claude-3-opus-20240229'', \<lparr>input = 15, output = 75\<rparr>),
      (''claude-3-sonnet'', \<lparr>input = 3, output = 15\<rparr>),
      (''claude-3-sonnet-20240229'', \<lparr>input = 3, output = 15\<rparr>),
      (''claude-3-haiku'', \<lparr>input = 25 / 100, output = 125 / 100\<rparr>),
      (''claude-3-haiku-20240307'', \<lparr>input = 25 / 100, output = 125 / 100\<rparr>)]"

text \<open>\<^verbatim>\<open>model.replace(/-\d{8}$/, '')\<close>: a final hyphen and eight digits are removed.\<close>

definition is_digit :: "char \<Rightarrow> bool" where
  "is_digit c = (c \<in> set ''0123456789'')"

definition strip_date_suffix :: "string \<Rightarrow> string" where
  "strip_date_suffix s =
     (case drop (length s - 9) s of
        c # ds \<Rightarrow>
          if 9 \<le> length s \<and> c = CHR ''-'' \<and> list_all is_digit ds
          then take (length s - 9) s else s
      | [] \<Rightarrow> s)"

text \<open>
  The \<^verbatim>\<open>usage\<close> object of the Anthropic API; an absent field is \<open>None\<close>, and
  \<^verbatim>\<open>x || 0\<close> reads it as zero.
\<close>

record usage =
  input_tokens :: "rat option"
  output_tokens :: "rat option"
  cache_read_input_tokens :: "rat option"
  cache_creation_input_tokens :: "rat option"

definition or0 :: "rat option \<Rightarrow> rat" where
  "or0 x = (case x of None \<Rightarrow> 0 | Some v \<Rightarrow> v)"

text \<open>
  \<^verbatim>\<open>
  function calculateAnthropicCost(model, usage) {
    if (!usage) return 0;
    let costs = ANTHROPIC_COSTS[model];
    if (!costs) {
      const matchedKey = Object.keys(ANTHROPIC_COSTS).find(key =>
        model.includes(key) || key.includes(model.replace(/-\d{8}$/, ''))
      );
      costs = matchedKey ? ANTHROPIC_COSTS[matchedKey] : { input: 3, output: 15 };
    }
    const inputCost = (usage.input_tokens || 0) / 1000000 * costs.input;
    const outputCost = (usage.output_tokens || 0) / 1000000 * costs.output;
    const cacheReadCost = (usage.cache_read_input_tokens || 0) / 1000000 * costs.input * 0.1;
    const cacheWriteCost = (usage.cache_creation_input_tokens || 0) / 1000000 * costs.input * 1.25;
    return inputCost + outputCost + cacheReadCost + cacheWriteCost;
  }
  \<close>
\<close>

definition anthropic_costs :: "string \<Rightarrow> rates property" where
  "anthropic_costs mdl =
     (case obj_get ANTHROPIC_COSTS mdl of
        Some costs \<Rightarrow> costs
      | None \<Rightarrow>
          (case find (\<lambda>(key, _). str_includes mdl key \<or> str_includes key (strip_date_suffix mdl))
                  ANTHROPIC_COSTS of
             Some (_, matchedCosts) \<Rightarrow> Own matchedCosts
           | None \<Rightarrow> Own \<lparr>input = 3, output = 15\<rparr>))"

definition calculateAnthropicCost :: "string \<Rightarrow> usage option \<Rightarrow> number" where
  "calculateAnthropicCost mdl usage_opt =
     (case usage_opt of
        None \<Rightarrow> Num 0
      | Some u \<Rightarrow>
          (case anthropic_costs mdl of
             Inherited \<Rightarrow> NaN
           | Own costs \<Rightarrow>
               (let inputCost = or0 (input_tokens u) / 1000000 * input costs;
                    outputCost = or0 (output_tokens u) / 1000000 * output costs;
                    cacheReadCost =
                      or0 (cache_read_input_tokens u) / 1000000 * input costs * (1 / 10);
                    cacheWriteCost =
                      or0 (cache_creation_input_tokens u) / 1000000 * input costs * (125 / 100)
                in Num (inputCost + outputCost + cacheReadCost + cacheWriteCost))))"



definition inherited_key :: "string \<Rightarrow> bool" where
  "inherited_key k = (k \<in> set Object_prototype_keys)"

section \<open>JSON values and library functions\<close>

text \<open>
  A parsed JSON value. Numbers are restricted to integers. \<^verbatim>\<open>JSON.parse\<close> and
  \<^verbatim>\<open>JSON.stringify\<close> are library functions; a handler that calls one takes it as
  a parameter (\<open>parse\<close> returns \<open>None\<close> where \<^verbatim>\<open>JSON.parse\<close> throws).
\<close>

datatype json =
    JNull
  | JBool bool
  | JNum int
  | JStr string
  | JArr "json list"
  | JObj "(string \<times> json) list"

fun truthy :: "json \<Rightarrow> bool" where
  "truthy JNull = False"
| "truthy (JBool b) = b"
| "truthy (JNum n) = (n \<noteq> 0)"
| "truthy (JStr s) = (s \<noteq> [])"
| "truthy (JArr _) = True"
| "truthy (JObj _) = True"

text \<open>\<^verbatim>\<open>x || null\<close> on an optional string: the empty string is falsy.\<close>

definition or_null :: "string option \<Rightarrow> string option" where
  "or_null x = (case x of Some s \<Rightarrow> if s = [] then None else Some s | None \<Rightarrow> None)"

text \<open>An exception that leaves a handler.\<close>

datatype js_error = SqliteConstraint | TypeError

text \<open>A response: the status code and the JSON body.\<close>

datatype response = Response nat json

section \<open>Persistent state\<close>

text \<open>
  The rows of the \<^verbatim>\<open>accounts\<close> and \<^verbatim>\<open>tasks\<close> tables, in insertion order. A
  nullable column is an option. The fields carry the column names; \<open>id\<close> is
  \<open>acc_id\<close> and \<open>task_id\<close>, and the account's \<open>provider\<close> and \<open>created_at\<close> carry
  the prefix \<open>acc_\<close>.
\<close>

record account =
  acc_id :: string
  key_hash :: string
  acc_provider :: string
  acc_created_at :: "string option"
  last_seen_at :: "string option"

record task =
  task_id :: string
  api_key_id :: "string option"
  account_id :: "string option"
  agent_name :: string
  description :: string
  status :: string
  started_at :: "string option"
  completed_at :: "string option"
  duration_ms :: int
  cost :: "rat option"
  error :: "string option"
  provider :: "string option"
  metadata :: "string option"
  created_at :: "string option"
  model :: "string option"
  prompt :: "string option"
  completion :: "string option"
  tokens_in :: "int option"
  tokens_out :: "int option"
  trace_id :: "string option"
  parent_id :: "string option"
  span_name :: "string option"
  prompt_version :: "string option"
  prompt_template_id :: "string option"
  original_request :: "string option"

record db =
  accounts :: "account list"
  tasks :: "task list"

text \<open>
  The authenticated caller, as the handlers read it: \<^verbatim>\<open>req.apiKey?.id || null\<close> and
  \<^verbatim>\<open>getAccountId(req)\<close>.
\<close>

record auth =
  apiKey_id :: "string option"
  accountId :: "string option"

text \<open>
  \<^verbatim>\<open>(api_key_id = ? OR account_id = ?)\<close>: a comparison with \<open>NULL\<close> on either side
  is not true.
\<close>

definition owned_by :: "auth \<Rightarrow> task \<Rightarrow> bool" where
  "owned_by a t =
     ((apiKey_id a \<noteq> None \<and> api_key_id t = apiKey_id a) \<or>
      (accountId a \<noteq> None \<and> account_id t = accountId a))"

section \<open>Accounts\<close>

text \<open>
  \<^verbatim>\<open>
  function getOrCreateAccount(keyHash, provider) {
    let account = db.prepare('SELECT * FROM accounts WHERE key_hash = ?').get(keyHash);
    if (!account) {
      const id = crypto.randomUUID();
      db.prepare('INSERT INTO accounts (id, key_hash, provider, created_at) VALUES (?, ?, ?, ?)').run(
        id, keyHash, provider, new Date().toISOString());
      account = { id, key_hash: keyHash, provider, created: true };
    }
    db.prepare('UPDATE accounts SET last_seen_at = ? WHERE id = ?').run(
      new Date().toISOString(), account.id);
    return account;
  }
  \<close>
  The generated identifier and the two timestamps are parameters. \<open>id\<close> is the primary
  key: an insert with an identifier already in the table throws. The function returns
  the account object (the row as selected, or the new object) and its
  \<^verbatim>\<open>created\<close> flag.
\<close>

definition touch_account :: "string \<Rightarrow> string \<Rightarrow> account list \<Rightarrow> account list" where
  "touch_account now aid rows =
     map (\<lambda>a. if acc_id a = aid then a\<lparr>last_seen_at := Some now\<rparr> else a) rows"

definition getOrCreateAccount ::
  "string \<Rightarrow> string \<Rightarrow> string \<Rightarrow> string \<Rightarrow> string \<Rightarrow> db \<Rightarrow> js_error + ((account \<times> bool) \<times> db)"
where
  "getOrCreateAccount randomUUID created_now seen_now keyHash prov d =
     (case find (\<lambda>a. key_hash a = keyHash) (accounts d) of
        Some row \<Rightarrow>
          Inr ((row, False), d\<lparr>accounts := touch_account seen_now (acc_id row) (accounts d)\<rparr>)
      | None \<Rightarrow>
          if randomUUID \<in> set (map acc_id (accounts d)) then Inl SqliteConstraint
          else
            let inserted = accounts d @
                  [\<lparr>acc_id = randomUUID, key_hash = keyHash, acc_provider = prov,
                    acc_created_at = Some created_now, last_seen_at = None\<rparr>];
                obj = \<lparr>acc_id = randomUUID, key_hash = keyHash, acc_provider = prov,
                       acc_created_at = None, last_seen_at = None\<rparr>
            in Inr ((obj, True), d\<lparr>accounts := touch_account seen_now randomUUID inserted\<rparr>))"

section \<open>Span ledger: completing a task\<close>

text \<open>
  The body of a completion request; an absent field is \<open>None\<close>. The fields carry the
  names of the request's, with the prefix \<open>body_\<close>.
\<close>

record complete_body =
  body_status :: "string option"
  body_durationMs :: "int option"
  body_cost :: "rat option"
  body_error :: "string option"
  body_model :: "string option"
  body_prompt :: "string option"
  body_completion :: "string option"
  body_tokens_in :: "int option"
  body_tokens_out :: "int option"
  body_metadata :: "json option"

definition or_zero :: "int option \<Rightarrow> int" where
  "or_zero x = (case x of None \<Rightarrow> 0 | Some v \<Rightarrow> v)"

definition or_empty_object :: "json option \<Rightarrow> json" where
  "or_empty_object x = (case x of Some v \<Rightarrow> if truthy v then v else JObj [] | None \<Rightarrow> JObj [])"

text \<open>
  \<^verbatim>\<open>
  app.post('/api/tasks/:id/complete', validateApiKey, (req, res) => {
    const { status, durationMs, cost, error, model, prompt, completion, tokens_in, tokens_out, metadata } = req.body;
    if (!status || durationMs === undefined) {
      return res.status(400).json({ error: 'Missing required fields', required: ['status', 'durationMs'] });
    }
    if (!['success', 'failed', 'slow'].includes(status)) {
      return res.status(400).json({ error: 'Invalid status. Must be: success, failed, or slow' });
    }
    const now = new Date().toISOString();
    const accountId = getAccountId(req);
    const result = db.prepare(`
      UPDATE tasks SET
        status = ?, duration_ms = ?, cost = ?, error = ?,
        model = ?, prompt = ?, completion = ?, tokens_in = ?, tokens_out = ?,
        metadata = ?, completed_at = ?
      WHERE id = ? AND (api_key_id = ? OR account_id = ?) AND status = 'running'
    `).run(status, durationMs, cost || 0, error || null, model || null, prompt || null,
           completion || null, tokens_in || 0, tokens_out || 0,
           JSON.stringify(metadata || {}), now, req.params.id, req.apiKey?.id || null, accountId);
    if (result.changes === 0) {
      return res.status(404).json({ error: 'Task not found or not in running state' });
    }
    res.json({ success: true, taskId: req.params.id, status: status, message: 'Task completed successfully' });
  });
  \<close>
\<close>

definition completes :: "auth \<Rightarrow> string \<Rightarrow> task \<Rightarrow> bool" where
  "completes a tid t = (task_id t = tid \<and> owned_by a t \<and> status t = ''running'')"

definition completed_row ::
  "(json \<Rightarrow> string) \<Rightarrow> string \<Rightarrow> string \<Rightarrow> int \<Rightarrow> complete_body \<Rightarrow> task \<Rightarrow> task" where
  "completed_row stringify now st dur body t =
     t\<lparr>status := st, duration_ms := dur, cost := Some (or0 (body_cost body)),
       error := or_null (body_error body), model := or_null (body_model body),
       prompt := or_null (body_prompt body), completion := or_null (body_completion body),
       tokens_in := Some (or_zero (body_tokens_in body)),
       tokens_out := Some (or_zero (body_tokens_out body)),
       metadata := Some (stringify (or_empty_object (body_metadata body))),
       completed_at := Some now\<rparr>"

definition missing_fields :: response where
  "missing_fields =
     Response 400 (JObj [(''error'', JStr ''Missing required fields''),
                         (''required'', JArr [JStr ''status'', JStr ''durationMs''])])"

definition invalid_status :: response where
  "invalid_status =
     Response 400 (JObj [(''error'', JStr ''Invalid status. Must be: success, failed, or slow'')])"

definition not_running :: response where
  "not_running = Response 404 (JObj [(''error'', JStr ''Task not found or not in running state'')])"

definition complete_task ::
  "(json \<Rightarrow> string) \<Rightarrow> string \<Rightarrow> auth \<Rightarrow> string \<Rightarrow> complete_body \<Rightarrow> db \<Rightarrow> response \<times> db"
where
  "complete_task stringify now a tid body d =
     (case (body_status body, body_durationMs body) of
        (Some st, Some dur) \<Rightarrow>
          if st = [] then (missing_fields, d)
          else if st \<notin> set [''success'', ''failed'', ''slow''] then (invalid_status, d)
          else
            let changes = length (filter (completes a tid) (tasks d));
                d' = d\<lparr>tasks := map (\<lambda>t. if completes a tid t
                                         then completed_row stringify now st dur body t
                                         else t) (tasks d)\<rparr>
            in if changes = 0 then (not_running, d')
               else (Response 200 (JObj [(''success'', JBool True), (''taskId'', JStr tid),
                                         (''status'', JStr st),
                                         (''message'', JStr ''Task completed successfully'')]), d')
      | _ \<Rightarrow> (missing_fields, d))"

text \<open>A sequence of completion requests, each with its time, caller, task and body.\<close>

fun complete_all ::
  "(json \<Rightarrow> string) \<Rightarrow> (string \<times> auth \<times> string \<times> complete_body) list \<Rightarrow> db \<Rightarrow> db" where
  "complete_all stringify [] d = d"
| "complete_all stringify ((now, a, tid, body) # rs) d =
     complete_all stringify rs (snd (complete_task stringify now a tid body d))"

text \<open>A finished span, for the examples: one proxied call of account \<open>acct\<close>.\<close>

definition finished_span :: task where
  "finished_span =
     \<lparr>task_id = ''span-1'', api_key_id = None, account_id = Some ''acct'',
      agent_name = ''proxy'', description = ''Proxy: gpt-4o'', status = ''success'',
      started_at = Some ''2026-01-01T00:00:00.000Z'',
      completed_at = Some ''2026-01-01T00:00:01.000Z'', duration_ms = 1000,
      cost = Some (1 / 100), error = None, provider = Some ''openai'',
      metadata = Some ''{}'', created_at = Some ''2026-01-01T00:00:00.000Z'',
      model = Some ''gpt-4o'', prompt = Some ''user: hi'', completion = Some ''hello'',
      tokens_in = Some 2, tokens_out = Some 1, trace_id = Some ''trace-1'', parent_id = None,
      span_name = None, prompt_version = None, prompt_template_id = None,
      original_request = None\<rparr>"

section \<open>Retrying a task\<close>




section \<open>Span ledger: assembling a trace\<close>

text \<open>
  \<^verbatim>\<open>
  app.get('/api/traces/:traceId', validateApiKey, (req, res) => {
    const accountId = getAccountId(req);
    const spans = db.prepare(`
      SELECT * FROM tasks
      WHERE trace_id = ? AND (api_key_id = ? OR account_id = ?)
      ORDER BY created_at ASC
    `).all(req.params.traceId, req.apiKey?.id || null, accountId);
    if (spans.length === 0) {
      return res.status(404).json({ error: 'Trace not found' });
    }
    const spanMap = {};
    const roots = [];
    spans.forEach(span => {
      spanMap[span.id] = { ...span, children: [] };
    });
    spans.forEach(span => {
      if (span.parent_id && spanMap[span.parent_id]) {
        spanMap[span.parent_id].children.push(spanMap[span.id]);
      } else {
        roots.push(spanMap[span.id]);
      }
    });
    const summary = {
      trace_id: req.params.traceId,
      span_count: spans.length,
      total_duration_ms: spans.reduce((sum, s) => sum + s.duration_ms, 0),
      total_cost: spans.reduce((sum, s) => sum + (s.cost || 0), 0),
      total_tokens_in: spans.reduce((sum, s) => sum + (s.tokens_in || 0), 0),
      total_tokens_out: spans.reduce((sum, s) => sum + (s.tokens_out || 0), 0),
      started_at: spans[0].created_at,
      ended_at: spans[spans.length - 1].created_at,
      has_failures: spans.some(s => s.status === 'failed')
    };
    res.json({ summary, tree: roots, spans });
  });
  \<close>
  The nodes of the forest are objects shared between \<^verbatim>\<open>spanMap\<close>, \<^verbatim>\<open>roots\<close> and
  the \<^verbatim>\<open>children\<close> arrays. The model keeps them in a store, \<open>spanMap\<close> itself, and a
  reference to a node is the key of the node: \<open>roots\<close> and \<open>children\<close> are lists of keys.
  \<^verbatim>\<open>spanMap[k]\<close> is a property read on an object literal: it finds the node stored
  under \<open>k\<close>, or else a member inherited from \<^verbatim>\<open>Object.prototype\<close>, which has no
  \<^verbatim>\<open>children\<close>, so that the \<^verbatim>\<open>push\<close> throws a \<^verbatim>\<open>TypeError\<close>. Span identifiers
  are values of \<^verbatim>\<open>crypto.randomUUID()\<close>; the assignment to the key \<^verbatim>\<open>__proto__\<close>
  is not modelled. Rows with equal \<^verbatim>\<open>created_at\<close> stay in insertion order.
\<close>

record node =
  span :: task
  children :: "string list"

definition node_get :: "(string \<rightharpoonup> node) \<Rightarrow> string \<Rightarrow> node property option" where
  "node_get spanMap k =
     (case spanMap k of
        Some n \<Rightarrow> Some (Own n)
      | None \<Rightarrow> if k \<in> set Object_prototype_keys then Some Inherited else None)"

definition index_span :: "task \<Rightarrow> (string \<rightharpoonup> node) \<Rightarrow> (string \<rightharpoonup> node)" where
  "index_span s spanMap = spanMap(task_id s \<mapsto> \<lparr>span = s, children = []\<rparr>)"

definition index_spans :: "task list \<Rightarrow> (string \<rightharpoonup> node)" where
  "index_spans spans = fold index_span spans Map.empty"

definition link_span ::
  "task \<Rightarrow> (string \<rightharpoonup> node) \<times> string list \<Rightarrow> js_error + ((string \<rightharpoonup> node) \<times> string list)"
where
  "link_span s st =
     (case st of (spanMap, roots) \<Rightarrow>
        (case or_null (parent_id s) of
           None \<Rightarrow> Inr (spanMap, roots @ [task_id s])
         | Some p \<Rightarrow>
             (case node_get spanMap p of
                None \<Rightarrow> Inr (spanMap, roots @ [task_id s])
              | Some Inherited \<Rightarrow> Inl TypeError
              | Some (Own n) \<Rightarrow>
                  Inr (spanMap(p \<mapsto> n\<lparr>children := children n @ [task_id s]\<rparr>), roots))))"

fun link_spans ::
  "task list \<Rightarrow> (string \<rightharpoonup> node) \<times> string list
     \<Rightarrow> js_error + ((string \<rightharpoonup> node) \<times> string list)"
where
  "link_spans [] st = Inr st"
| "link_spans (s # ss) st =
     (case link_span s st of Inl e \<Rightarrow> Inl e | Inr st' \<Rightarrow> link_spans ss st')"

record summary =
  summary_trace_id :: string
  span_count :: nat
  total_duration_ms :: int
  total_cost :: rat
  total_tokens_in :: int
  total_tokens_out :: int
  summary_started_at :: "string option"
  ended_at :: "string option"
  has_failures :: bool

definition summarize :: "string \<Rightarrow> task \<Rightarrow> task list \<Rightarrow> summary" where
  "summarize traceId first_span spans =
     \<lparr>summary_trace_id = traceId,
      span_count = length spans,
      total_duration_ms = foldl (\<lambda>sum s. sum + duration_ms s) 0 spans,
      total_cost = foldl (\<lambda>sum s. sum + or0 (cost s)) 0 spans,
      total_tokens_in = foldl (\<lambda>sum s. sum + or_zero (tokens_in s)) 0 spans,
      total_tokens_out = foldl (\<lambda>sum s. sum + or_zero (tokens_out s)) 0 spans,
      summary_started_at = created_at first_span,
      ended_at = created_at (last spans),
      has_failures = list_ex (\<lambda>s. status s = ''failed'') spans\<rparr>"

text \<open>The handler's answer: 404, or the summary, the forest and the flat list.\<close>

datatype trace_response =
    Trace_not_found
  | Trace summary "string list" "string \<rightharpoonup> node" "task list"

definition trace_spans :: "auth \<Rightarrow> string \<Rightarrow> db \<Rightarrow> task list" where
  "trace_spans a traceId d =
     sort_key created_at (filter (\<lambda>t. trace_id t = Some traceId \<and> owned_by a t) (tasks d))"

definition assemble_trace :: "string \<Rightarrow> task list \<Rightarrow> js_error + trace_response" where
  "assemble_trace traceId spans =
     (case spans of
        [] \<Rightarrow> Inr Trace_not_found
      | first_span # _ \<Rightarrow>
          (case link_spans spans (index_spans spans, []) of
             Inl e \<Rightarrow> Inl e
           | Inr (spanMap, roots) \<Rightarrow>
               Inr (Trace (summarize traceId first_span spans) roots spanMap spans)))"

definition get_trace :: "auth \<Rightarrow> string \<Rightarrow> db \<Rightarrow> js_error + trace_response" where
  "get_trace a traceId d = assemble_trace traceId (trace_spans a traceId d)"

text \<open>
  The forest in the specification's words: a span's parent is resolvable when its
  \<^verbatim>\<open>parent_id\<close> (a non-empty string) is the identifier of a span of the trace; the
  children of a span are the spans whose \<^verbatim>\<open>parent_id\<close> is its identifier.
\<close>

definition resolvable :: "task list \<Rightarrow> task \<Rightarrow> bool" where
  "resolvable spans s =
     (case or_null (parent_id s) of None \<Rightarrow> False | Some p \<Rightarrow> p \<in> set (map task_id spans))"

definition child_ids :: "task list \<Rightarrow> string \<Rightarrow> string list" where
  "child_ids spans k = map task_id (filter (\<lambda>c. or_null (parent_id c) = Some k) spans)"

text \<open>No span names, as its parent, an inherited member that is not a span.\<close>

definition plain_parents :: "task list \<Rightarrow> bool" where
  "plain_parents spans =
     list_all (\<lambda>s. case or_null (parent_id s) of
                     None \<Rightarrow> True
                   | Some p \<Rightarrow> p \<in> set (map task_id spans) \<or> p \<notin> set Object_prototype_keys) spans"

section \<open>Lines of text\<close>

definition newline :: char where
  "newline = CHR 0x0A"

text \<open>\<^verbatim>\<open>s.split(sep)\<close> for a separator of one character: never the empty list.\<close>

fun js_split :: "char \<Rightarrow> string \<Rightarrow> string list" where
  "js_split sep [] = [[]]"
| "js_split sep (c # s) =
     (if c = sep then [] # js_split sep s
      else (case js_split sep s of
              [] \<Rightarrow> [[c]]
            | l # ls \<Rightarrow> (c # l) # ls))"





section \<open>Replay: the request of a stored span\<close>












section \<open>Stream relay of the chat-completions endpoint\<close>

text \<open>
  Reads on a parsed event. \<^verbatim>\<open>v.k\<close> on an object is the field \<open>k\<close> (the keys of a
  parsed object are distinct), and \<^verbatim>\<open>undefined\<close> (\<open>None\<close>) on a number, a string, a
  boolean or an array, for the keys the handlers read; \<^verbatim>\<open>v?.k\<close> is
  \<^verbatim>\<open>undefined\<close> also on \<^verbatim>\<open>null\<close> and \<^verbatim>\<open>undefined\<close>. A token count is read as a
  JSON number and the text of a delta as a JSON string, as the provider's protocol has
  them: the coercion of a truthy value of another type is not modelled.
\<close>

fun js_get :: "json \<Rightarrow> string \<Rightarrow> json option" where
  "js_get (JObj props) k = map_of props k"
| "js_get _ k = None"

definition js_get_opt :: "json option \<Rightarrow> string \<Rightarrow> json option" where
  "js_get_opt v k = (case v of Some x \<Rightarrow> js_get x k | None \<Rightarrow> None)"

definition count_or_zero :: "json option \<Rightarrow> int" where
  "count_or_zero v = (case v of Some (JNum n) \<Rightarrow> n | _ \<Rightarrow> 0)"

definition truthy_text :: "json option \<Rightarrow> string option" where
  "truthy_text v = (case v of Some (JStr s) \<Rightarrow> if s = [] then None else Some s | _ \<Rightarrow> None)"

text \<open>
  What the handler writes to the caller: a canonical chunk
  \<^verbatim>\<open>{ id, object: 'chat.completion.chunk', created, model, choices: [{ index: 0, delta, finish_reason }] }\<close>
  (without its time of creation; \<^verbatim>\<open>delta\<close> is \<^verbatim>\<open>{ content }\<close> or \<^verbatim>\<open>{}\<close>) or
  the marker \<^verbatim>\<open>[DONE]\<close>, each as one \<^verbatim>\<open>data:\<close> frame.
\<close>

record chunk =
  chunk_id :: string
  chunk_model :: string
  delta_content :: "string option"
  finish_reason :: "string option"

datatype frame = Data chunk | Done

text \<open>The variables of the loop, and the frames written so far.\<close>

record relay_state =
  tokensIn :: int
  tokensOut :: int
  completionText :: string
  buffer :: string
  written :: "frame list"

text \<open>
  \<^verbatim>\<open>
          for (const line of lines) {
            if (line.startsWith('data: ')) {
              const data = line.slice(6);
              if (data === '[DONE]') { res.write('data: [DONE]\n\n'); continue; }
              try {
                const event = JSON.parse(data);
                if (event.type === 'message_start') tokensIn = event.message?.usage?.input_tokens || 0;
                if (event.type === 'message_delta') tokensOut = event.usage?.output_tokens || 0;
                if (event.type === 'content_block_delta' && event.delta?.text) {
                  completionText += event.delta.text;
                  res.write(`data: ${JSON.stringify({ id: 'chatcmpl-' + taskId, object: 'chat.completion.chunk', created: Math.floor(Date.now() / 1000), model, choices: [{ index: 0, delta: { content: event.delta.text }, finish_reason: null }] })}\n\n`);
                }
                if (event.type === 'message_stop') {
                  res.write(`data: ${JSON.stringify({ id: 'chatcmpl-' + taskId, object: 'chat.completion.chunk', created: Math.floor(Date.now() / 1000), model, choices: [{ index: 0, delta: {}, finish_reason: 'stop' }] })}\n\n`);
                  res.write('data: [DONE]\n\n');
                }
              } catch (e) {}
            }
          }
  \<close>
  \<^verbatim>\<open>JSON.parse\<close> throws on a malformed payload, and \<^verbatim>\<open>event.type\<close> throws on
  \<^verbatim>\<open>null\<close>: the event is skipped.
\<close>

definition on_message_start :: "json \<Rightarrow> relay_state \<Rightarrow> relay_state" where
  "on_message_start event st =
     (if js_get event ''type'' = Some (JStr ''message_start'')
      then st\<lparr>tokensIn := count_or_zero
                 (js_get_opt (js_get_opt (js_get event ''message'') ''usage'') ''input_tokens'')\<rparr>
      else st)"

definition on_message_delta :: "json \<Rightarrow> relay_state \<Rightarrow> relay_state" where
  "on_message_delta event st =
     (if js_get event ''type'' = Some (JStr ''message_delta'')
      then st\<lparr>tokensOut := count_or_zero (js_get_opt (js_get event ''usage'') ''output_tokens'')\<rparr>
      else st)"

definition on_content_block_delta :: "string \<Rightarrow> string \<Rightarrow> json \<Rightarrow> relay_state \<Rightarrow> relay_state" where
  "on_content_block_delta taskId mdl event st =
     (case truthy_text (js_get_opt (js_get event ''delta'') ''text'') of
        Some text \<Rightarrow>
          if js_get event ''type'' = Some (JStr ''content_block_delta'')
          then st\<lparr>completionText := completionText st @ text,
                  written := written st @
                    [Data \<lparr>chunk_id = ''chatcmpl-'' @ taskId, chunk_model = mdl,
                           delta_content = Some text, finish_reason = None\<rparr>]\<rparr>
          else st
      | None \<Rightarrow> st)"

definition on_message_stop :: "string \<Rightarrow> string \<Rightarrow> json \<Rightarrow> relay_state \<Rightarrow> relay_state" where
  "on_message_stop taskId mdl event st =
     (if js_get event ''type'' = Some (JStr ''message_stop'')
      then st\<lparr>written := written st @
             [Data \<lparr>chunk_id = ''chatcmpl-'' @ taskId, chunk_model = mdl,
                    delta_content = None, finish_reason = Some ''stop''\<rparr>,
              Done]\<rparr>
      else st)"

definition relay_line ::
  "(string \<Rightarrow> json option) \<Rightarrow> string \<Rightarrow> string \<Rightarrow> relay_state \<Rightarrow> string \<Rightarrow> relay_state" where
  "relay_line parse taskId mdl st line =
     (if prefix ''data: '' line then
        let data = drop 6 line in
        if data = ''[DONE]'' then st\<lparr>written := written st @ [Done]\<rparr>
        else
          (case parse data of
             None \<Rightarrow> st
           | Some event \<Rightarrow>
               if event = JNull then st
               else on_message_stop taskId mdl event
                      (on_content_block_delta taskId mdl event
                        (on_message_delta event (on_message_start event st))))
      else st)"

text \<open>
  \<^verbatim>\<open>
        let buffer = '';
        while (true) {
          const { done, value } = await reader.read();
          if (done) break;
          buffer += decoder.decode(value, { stream: true });
          const lines = buffer.split('\n');
          buffer = lines.pop() || '';
          for (const line of lines) { ... }
        }
        res.end();
  \<close>
  The upstream body is the list of the pieces the reader returns, decoded.
\<close>

definition relay_read ::
  "(string \<Rightarrow> json option) \<Rightarrow> string \<Rightarrow> string \<Rightarrow> relay_state \<Rightarrow> string \<Rightarrow> relay_state" where
  "relay_read parse taskId mdl st piece =
     (let lines = js_split newline (buffer st @ piece)
      in foldl (relay_line parse taskId mdl)
           (st\<lparr>buffer := (if lines = [] then [] else last lines)\<rparr>) (butlast lines))"

definition relay_anthropic_stream ::
  "(string \<Rightarrow> json option) \<Rightarrow> string \<Rightarrow> string \<Rightarrow> string list \<Rightarrow> relay_state" where
  "relay_anthropic_stream parse taskId mdl pieces =
     foldl (relay_read parse taskId mdl)
       \<lparr>tokensIn = 0, tokensOut = 0, completionText = [], buffer = [], written = []\<rparr> pieces"

text \<open>
  \<^verbatim>\<open>
    const durationMs = Date.now() - startTime;
    const cost = calculateCost(model, tokensIn, tokensOut);
    db.prepare(`UPDATE tasks SET status = 'success', duration_ms = ?, cost = ?, completion = ?, tokens_in = ?, tokens_out = ?, completed_at = ? WHERE id = ?`)
      .run(durationMs, cost, completionText, tokensIn, tokensOut, new Date().toISOString(), taskId);
  \<close>
  A \<open>NaN\<close> is stored as \<open>NULL\<close>.
\<close>

definition number_column :: "number \<Rightarrow> rat option" where
  "number_column x = (case x of Num r \<Rightarrow> Some r | NaN \<Rightarrow> None)"

definition finalize_success ::
  "string \<Rightarrow> string \<Rightarrow> int \<Rightarrow> string \<Rightarrow> relay_state \<Rightarrow> db \<Rightarrow> db" where
  "finalize_success taskId mdl durationMs now st d =
     d\<lparr>tasks := map (\<lambda>t. if task_id t = taskId
                           then t\<lparr>status := ''success'', duration_ms := durationMs,
                                  cost := number_column
                                    (calculateCost mdl (of_int (tokensIn st)) (of_int (tokensOut st))),
                                  completion := Some (completionText st),
                                  tokens_in := Some (tokensIn st),
                                  tokens_out := Some (tokensOut st),
                                  completed_at := Some now\<rparr>
                           else t) (tasks d)\<rparr>"

text \<open>The streaming branch for the provider \<open>anthropic\<close>, from the first read to the update.\<close>

definition stream_anthropic ::
  "(string \<Rightarrow> json option) \<Rightarrow> string \<Rightarrow> string \<Rightarrow> int \<Rightarrow> string \<Rightarrow> string list \<Rightarrow> db
     \<Rightarrow> frame list \<times> db" where
  "stream_anthropic parse taskId mdl durationMs now pieces d =
     (let st = relay_anthropic_stream parse taskId mdl pieces
      in (written st, finalize_success taskId mdl durationMs now st d))"

text \<open>The events of the provider's stream, as parsed.\<close>

definition message_start :: "int \<Rightarrow> json" where
  "message_start n =
     JObj [(''type'', JStr ''message_start''),
           (''message'', JObj [(''usage'', JObj [(''input_tokens'', JNum n)])])]"

definition content_block_delta :: "string \<Rightarrow> json" where
  "content_block_delta text =
     JObj [(''type'', JStr ''content_block_delta''),
           (''delta'', JObj [(''type'', JStr ''text_delta''), (''text'', JStr text)])]"

definition message_delta :: "int \<Rightarrow> json" where
  "message_delta n =
     JObj [(''type'', JStr ''message_delta''), (''usage'', JObj [(''output_tokens'', JNum n)])]"

definition message_stop :: json where
  "message_stop = JObj [(''type'', JStr ''message_stop'')]"

text \<open>
  A stream for the examples: the six events of the scenario in the provider's framing
  (an \<^verbatim>\<open>event:\<close> line, a \<^verbatim>\<open>data:\<close> line, an empty line), cut into two pieces in
  the middle of a line, and a parser that knows the six payloads.
\<close>

definition example_parse :: "string \<Rightarrow> json option" where
  "example_parse =
     map_of [(''{start}'', message_start 10),
             (''{hello}'', content_block_delta ''Hello''),
             (''{world}'', content_block_delta '' world''),
             (''{bang}'', content_block_delta ''!''),
             (''{usage}'', message_delta 3),
             (''{stop}'', message_stop)]"

definition example_lines :: "string list" where
  "example_lines =
     [''event: message_start'', ''data: {start}'', [],
      ''event: content_block_delta'', ''data: {hello}'', [],
      ''event: content_block_delta'', ''data: {world}'', [],
      ''event: content_block_delta'', ''data: {bang}'', [],
      ''event: message_delta'', ''data: {usage}'', [],
      ''event: message_stop'', ''data: {stop}'', []]"

definition example_pieces :: "string list" where
  "example_pieces =
     [concat (map (\<lambda>l. l @ [newline]) (take 4 example_lines)) @ ''data: {he'',
      ''llo}'' @ [newline] @ concat (map (\<lambda>l. l @ [newline]) (drop 5 example_lines))]"

section \<open>The Anthropic-style messages endpoint\<close>






























chapter \<open>Properties\<close>

section \<open>Properties of the string helpers\<close>

lemma str_includes_sublist: "str_includes s k = sublist k s"
  by (induction s) (auto simp: sublist_Cons_right)

lemma toLowerCase_Nil_iff: "toLowerCase s = [] \<longleftrightarrow> s = []"
  by (simp add: toLowerCase_def)

section \<open>Provider detection from the model name\<close>

text \<open>
  Claim C3, as stated, asks that every model name containing the separator \<open>/\<close> be
  routed to \<open>openrouter\<close>, and that every name starting with \<open>claude-\<close> yield
  \<open>anthropic\<close>. The code tests the families in a fixed order and the first match
  wins: \<open>anthropic/claude-3-opus\<close> is routed to \<open>openrouter\<close>, but
  \<open>openai/gpt-4o\<close> contains \<open>openai\<close> and \<open>claude-3/haiku\<close> starts with
  \<open>claude-\<close>, and neither is.
\<close>

theorem detectProviderFromModel_separator_counterexample:
  "str_includes ''openai/gpt-4o'' ''/'' \<and>
   detectProviderFromModel ''openai/gpt-4o'' = ''openai'' \<and>
   str_includes ''claude-3/haiku'' ''/'' \<and>
   detectProviderFromModel ''claude-3/haiku'' = ''anthropic'' \<and>
   prefix ''claude-'' ''claude-openai'' \<and>
   detectProviderFromModel ''claude-openai'' = ''openai''"
  by (simp add: detectProviderFromModel_def toLowerCase_def toLowerChar_def)

text \<open>
  Claim C3, amended. \<open>detectProviderFromModel\<close> always returns one of the five
  providers. On the lower-cased model name: a name starting with \<open>gpt-\<close> or \<open>o1\<close>, or
  containing \<open>openai\<close>, yields \<open>openai\<close>; among the names that do not contain
  \<open>openai\<close>, one starting with \<open>claude-\<close> yields \<open>anthropic\<close>, with \<open>gemini-\<close>
  \<open>google\<close>, with \<open>grok-\<close> \<open>xai\<close>; a name that matches none of these families is
  routed to \<open>openrouter\<close> when it contains \<open>/\<close> and to the default \<open>openai\<close>
  otherwise.
\<close>

theorem detectProviderFromModel_families:
  "detectProviderFromModel mdl \<in>
     {''openai'', ''anthropic'', ''google'', ''xai'', ''openrouter''} \<and>
   (prefix ''gpt-'' (toLowerCase mdl) \<or> prefix ''o1'' (toLowerCase mdl) \<or>
    str_includes (toLowerCase mdl) ''openai''
      \<longrightarrow> detectProviderFromModel mdl = ''openai'') \<and>
   (\<not> str_includes (toLowerCase mdl) ''openai'' \<longrightarrow>
      (prefix ''claude-'' (toLowerCase mdl)
         \<longrightarrow> detectProviderFromModel mdl = ''anthropic'') \<and>
      (prefix ''gemini-'' (toLowerCase mdl)
         \<longrightarrow> detectProviderFromModel mdl = ''google'') \<and>
      (prefix ''grok-'' (toLowerCase mdl)
         \<longrightarrow> detectProviderFromModel mdl = ''xai'')) \<and>
   (\<not> prefix ''gpt-'' (toLowerCase mdl) \<and> \<not> prefix ''o1'' (toLowerCase mdl) \<and>
    \<not> str_includes (toLowerCase mdl) ''openai'' \<and>
    \<not> prefix ''claude-'' (toLowerCase mdl) \<and> \<not> prefix ''gemini-'' (toLowerCase mdl) \<and>
    \<not> prefix ''grok-'' (toLowerCase mdl) \<longrightarrow>
      detectProviderFromModel mdl =
        (if str_includes (toLowerCase mdl) ''/'' then ''openrouter'' else ''openai''))"
proof (cases "mdl = []")
  case True
  then show ?thesis
    by (simp add: detectProviderFromModel_def toLowerCase_def)
next
  case False
  let ?m = "toLowerCase mdl"
  have excl: "\<not> (prefix a ?m \<and> prefix b ?m)" if "\<not> prefix a b" "\<not> prefix b a" for a b
    using that prefix_same_cases [of a ?m b] by blast
  have gpt: "prefix ''claude-'' ?m \<or> prefix ''gemini-'' ?m \<or> prefix ''grok-'' ?m
      \<Longrightarrow> \<not> prefix ''gpt-'' ?m \<and> \<not> prefix ''o1'' ?m"
    using excl [of "''claude-''" "''gpt-''"] excl [of "''claude-''" "''o1''"]
      excl [of "''gemini-''" "''gpt-''"] excl [of "''gemini-''" "''o1''"]
      excl [of "''grok-''" "''gpt-''"] excl [of "''grok-''" "''o1''"]
    by auto
  have cl: "prefix ''gemini-'' ?m \<or> prefix ''grok-'' ?m \<Longrightarrow> \<not> prefix ''claude-'' ?m"
    using excl [of "''gemini-''" "''claude-''"] excl [of "''grok-''" "''claude-''"]
    by auto
  have ge: "prefix ''grok-'' ?m \<Longrightarrow> \<not> prefix ''gemini-'' ?m"
    using excl [of "''grok-''" "''gemini-''"] by auto
  from False gpt cl ge show ?thesis
    unfolding detectProviderFromModel_def Let_def by auto
qed

theorem detectProviderFromModel_families_witness:
  "detectProviderFromModel ''GPT-4o'' = ''openai'' \<and>
   detectProviderFromModel ''Claude-3-opus'' = ''anthropic'' \<and>
   detectProviderFromModel ''anthropic/claude-3-opus'' = ''openrouter'' \<and>
   detectProviderFromModel ''mistral-large'' = ''openai''"
proof -
  have gpt: "detectProviderFromModel ''GPT-4o'' = ''openai''"
  proof -
    have "prefix ''gpt-'' (toLowerCase ''GPT-4o'')"
      by (simp add: toLowerCase_def toLowerChar_def)
    then show ?thesis
      using detectProviderFromModel_families [of "''GPT-4o''"] by blast
  qed
  have claude: "detectProviderFromModel ''Claude-3-opus'' = ''anthropic''"
  proof -
    have "toLowerCase ''Claude-3-opus'' = ''claude-3-opus''"
      by (simp add: toLowerCase_def toLowerChar_def)
    then have "\<not> str_includes (toLowerCase ''Claude-3-opus'') ''openai''"
      "prefix ''claude-'' (toLowerCase ''Claude-3-opus'')"
      by simp_all
    then show ?thesis
      using detectProviderFromModel_families [of "''Claude-3-opus''"] by blast
  qed
  have routed: "detectProviderFromModel ''anthropic/claude-3-opus'' = ''openrouter''"
  proof -
    let ?m = "''anthropic/claude-3-opus''"
    have lc: "toLowerCase ?m = ?m"
      by (simp add: toLowerCase_def toLowerChar_def)
    have "\<not> prefix ''gpt-'' ?m \<and> \<not> prefix ''o1'' ?m \<and> \<not> str_includes ?m ''openai'' \<and>
      \<not> prefix ''claude-'' ?m \<and> \<not> prefix ''gemini-'' ?m \<and> \<not> prefix ''grok-'' ?m"
      "str_includes ?m ''/''"
      by simp_all
    then show ?thesis
      using detectProviderFromModel_families [of ?m] unfolding lc by presburger
  qed
  have dflt: "detectProviderFromModel ''mistral-large'' = ''openai''"
  proof -
    let ?m = "''mistral-large''"
    have lc: "toLowerCase ?m = ?m"
      by (simp add: toLowerCase_def toLowerChar_def)
    have "\<not> prefix ''gpt-'' ?m \<and> \<not> prefix ''o1'' ?m \<and> \<not> str_includes ?m ''openai'' \<and>
      \<not> prefix ''claude-'' ?m \<and> \<not> prefix ''gemini-'' ?m \<and> \<not> prefix ''grok-'' ?m"
      "\<not> str_includes ?m ''/''"
      by simp_all
    then show ?thesis
      using detectProviderFromModel_families [of ?m] unfolding lc by presburger
  qed
  from gpt claude routed dflt show ?thesis by blast
qed

section \<open>Properties of the cost functions\<close>

lemma find_SomeD: "find P xs = Some x \<Longrightarrow> x \<in> set xs \<and> P x"
  by (induction xs) (auto split: if_splits)

lemma MODEL_COSTS_nonneg: "(k, c) \<in> set MODEL_COSTS \<Longrightarrow> 0 \<le> input c \<and> 0 \<le> output c"
  unfolding MODEL_COSTS_def by auto

lemma ANTHROPIC_COSTS_nonneg:
  "(k, c) \<in> set ANTHROPIC_COSTS \<Longrightarrow> 0 \<le> input c \<and> 0 \<le> output c"
  unfolding ANTHROPIC_COSTS_def by auto

lemma obj_get_Own: "obj_get tbl k = Some (Own c) \<Longrightarrow> (k, c) \<in> set tbl"
  by (auto simp: obj_get_def split: option.splits if_splits dest: map_of_SomeD)

lemma obj_get_Inherited: "obj_get tbl k = Some Inherited \<Longrightarrow> inherited_key k"
  by (auto simp: obj_get_def inherited_key_def split: option.splits if_splits)


lemma anthropic_costs_Own:
  assumes "\<not> inherited_key mdl"
  shows "\<exists>c. anthropic_costs mdl = Own c \<and> 0 \<le> input c \<and> 0 \<le> output c"
proof (cases "obj_get ANTHROPIC_COSTS mdl")
  case None
  show ?thesis
  proof (cases "find (\<lambda>(key, _). str_includes mdl key \<or> str_includes key (strip_date_suffix mdl))
                  ANTHROPIC_COSTS")
    case n: None
    with None have "anthropic_costs mdl = Own \<lparr>input = 3, output = 15\<rparr>"
      by (simp add: anthropic_costs_def)
    then show ?thesis by simp
  next
    case (Some kc)
    obtain k c where kc: "kc = (k, c)" by (cases kc)
    from Some kc have "(k, c) \<in> set ANTHROPIC_COSTS" by (auto dest: find_SomeD)
    then have "0 \<le> input c" "0 \<le> output c" by (auto dest: ANTHROPIC_COSTS_nonneg)
    moreover from None Some kc have "anthropic_costs mdl = Own c"
      by (simp add: anthropic_costs_def)
    ultimately show ?thesis by blast
  qed
next
  case (Some p)
  show ?thesis
  proof (cases p)
    case (Own c)
    with Some have "(mdl, c) \<in> set ANTHROPIC_COSTS" by (auto dest: obj_get_Own)
    then have "0 \<le> input c" "0 \<le> output c" by (auto dest: ANTHROPIC_COSTS_nonneg)
    moreover from Some Own have "anthropic_costs mdl = Own c"
      by (simp add: anthropic_costs_def)
    ultimately show ?thesis by blast
  next
    case Inherited
    with Some assms show ?thesis by (auto dest: obj_get_Inherited)
  qed
qed

lemma calculateCost_Num:
  assumes "\<not> inherited_key mdl"
  shows "\<exists>ri ro. 0 \<le> ri \<and> 0 \<le> ro \<and>
    (\<forall>a b. calculateCost mdl a b = Num ((a / 1000) * ri + (b / 1000) * ro))"
proof (cases "obj_get MODEL_COSTS mdl")
  case None
  show ?thesis
  proof (cases "find (\<lambda>(key, _). str_includes mdl key \<or> str_includes key mdl) MODEL_COSTS")
    case n: None
    with None have "\<forall>a b. calculateCost mdl a b = Num ((a / 1000) * 0 + (b / 1000) * 0)"
      by (simp add: calculateCost_def)
    then show ?thesis by (intro exI [of _ 0]) simp
  next
    case (Some kc)
    obtain k c where kc: "kc = (k, c)" by (cases kc)
    from Some kc have "(k, c) \<in> set MODEL_COSTS" by (auto dest: find_SomeD)
    then have "0 \<le> input c" "0 \<le> output c" by (auto dest: MODEL_COSTS_nonneg)
    moreover from None Some kc
    have "\<forall>a b. calculateCost mdl a b = Num ((a / 1000) * input c + (b / 1000) * output c)"
      by (simp add: calculateCost_def)
    ultimately show ?thesis by blast
  qed
next
  case (Some p)
  show ?thesis
  proof (cases p)
    case (Own c)
    with Some have "(mdl, c) \<in> set MODEL_COSTS" by (auto dest: obj_get_Own)
    then have "0 \<le> input c" "0 \<le> output c" by (auto dest: MODEL_COSTS_nonneg)
    moreover from Some Own
    have "\<forall>a b. calculateCost mdl a b = Num ((a / 1000) * input c + (b / 1000) * output c)"
      by (simp add: calculateCost_def)
    ultimately show ?thesis by blast
  next
    case Inherited
    with Some assms show ?thesis by (auto dest: obj_get_Inherited)
  qed
qed

text \<open>
  For every model name that is not the name of an inherited member, both cost functions
  are monotone in the token counts.
\<close>

lemma calculateCost_mono:
  assumes "\<not> inherited_key mdl" and "a \<le> a'" and "b \<le> b'"
  shows "js_le (calculateCost mdl a b) (calculateCost mdl a' b')"
proof -
  obtain ri ro where r: "0 \<le> ri" "0 \<le> ro"
    and eq: "\<And>a b. calculateCost mdl a b = Num ((a / 1000) * ri + (b / 1000) * ro)"
    using calculateCost_Num [OF assms(1)] by blast
  have "(a / 1000) * ri \<le> (a' / 1000) * ri"
    using assms(2) r(1) by (intro mult_right_mono) (simp_all add: divide_right_mono)
  moreover have "(b / 1000) * ro \<le> (b' / 1000) * ro"
    using assms(3) r(2) by (intro mult_right_mono) (simp_all add: divide_right_mono)
  ultimately show ?thesis by (simp add: eq add_mono)
qed

lemma calculateAnthropicCost_mono:
  assumes "\<not> inherited_key mdl"
    and "or0 (input_tokens u) \<le> or0 (input_tokens u')"
    and "or0 (output_tokens u) \<le> or0 (output_tokens u')"
    and "cache_read_input_tokens u' = cache_read_input_tokens u"
    and "cache_creation_input_tokens u' = cache_creation_input_tokens u"
  shows "js_le (calculateAnthropicCost mdl (Some u)) (calculateAnthropicCost mdl (Some u'))"
proof -
  obtain c where c: "anthropic_costs mdl = Own c" "0 \<le> input c" "0 \<le> output c"
    using anthropic_costs_Own [OF assms(1)] by blast
  have "or0 (input_tokens u) / 1000000 * input c \<le> or0 (input_tokens u') / 1000000 * input c"
    using assms(2) c(2) by (intro mult_right_mono) (simp_all add: divide_right_mono)
  moreover have
    "or0 (output_tokens u) / 1000000 * output c \<le> or0 (output_tokens u') / 1000000 * output c"
    using assms(3) c(3) by (intro mult_right_mono) (simp_all add: divide_right_mono)
  ultimately show ?thesis
    using assms(4,5) by (simp add: calculateAnthropicCost_def c(1) Let_def add_mono)
qed

section \<open>Cache-aware pricing and the rate of an unmatched model\<close>




section \<open>Monotonicity of the cost in the token counts\<close>

text \<open>
  Claim C5 asks, for every model string, that the cost grow with the token counts. For
  a model named like a member inherited from \<^verbatim>\<open>Object.prototype\<close> the table read
  returns that member, the cost is \<open>NaN\<close>, and \<open>NaN <= NaN\<close> is false: at
  \<open>constructor\<close> neither cost function is monotone. (For every other model name both
  are: \<open>calculateCost_mono\<close>, \<open>calculateAnthropicCost_mono\<close>.)
\<close>

theorem cost_not_monotone_at_constructor:
  "calculateCost ''constructor'' 1 1 = NaN \<and>
   \<not> js_le (calculateCost ''constructor'' 1 1) (calculateCost ''constructor'' 2 2) \<and>
   calculateAnthropicCost ''constructor''
     (Some \<lparr>input_tokens = Some 1, output_tokens = Some 1,
            cache_read_input_tokens = None, cache_creation_input_tokens = None\<rparr>) = NaN \<and>
   \<not> js_le
     (calculateAnthropicCost ''constructor''
       (Some \<lparr>input_tokens = Some 1, output_tokens = Some 1,
              cache_read_input_tokens = None, cache_creation_input_tokens = None\<rparr>))
     (calculateAnthropicCost ''constructor''
       (Some \<lparr>input_tokens = Some 2, output_tokens = Some 2,
              cache_read_input_tokens = None, cache_creation_input_tokens = None\<rparr>))"
  by (simp add: calculateCost_def calculateAnthropicCost_def anthropic_costs_def obj_get_def
      Object_prototype_keys_def MODEL_COSTS_def ANTHROPIC_COSTS_def)

section \<open>Idempotence of account creation\<close>

lemma find_touch_account:
  "find (\<lambda>a. key_hash a = h) (touch_account now aid rows) =
     map_option (\<lambda>a. if acc_id a = aid then a\<lparr>last_seen_at := Some now\<rparr> else a)
       (find (\<lambda>a. key_hash a = h) rows)"
  by (induction rows) (auto simp: touch_account_def)

lemma length_touch_account: "length (touch_account now aid rows) = length rows"
  by (simp add: touch_account_def)

lemma ids_touch_account: "map acc_id (touch_account now aid rows) = map acc_id rows"
  by (induction rows) (auto simp: touch_account_def)

lemma hashes_touch_account: "map key_hash (touch_account now aid rows) = map key_hash rows"
  by (induction rows) (auto simp: touch_account_def)

lemma find_append_None:
  "find P xs = None \<Longrightarrow> find P (xs @ [x]) = (if P x then Some x else None)"
  by (induction xs) (auto split: if_splits)

lemma getOrCreateAccount_row:
  assumes "getOrCreateAccount uuid c s h p d = Inr ((a, created), d')"
  shows "\<exists>row. find (\<lambda>a. key_hash a = h) (accounts d') = Some row \<and> acc_id row = acc_id a \<and>
           last_seen_at row = Some s"
proof (cases "find (\<lambda>a. key_hash a = h) (accounts d)")
  case None
  with assms have fresh: "uuid \<notin> set (map acc_id (accounts d))"
    by (auto simp: getOrCreateAccount_def split: if_splits)
  let ?new = "\<lparr>acc_id = uuid, key_hash = h, acc_provider = p,
                acc_created_at = Some c, last_seen_at = None\<rparr>"
  from assms None fresh have d': "accounts d' = touch_account s uuid (accounts d @ [?new])"
    and a: "acc_id a = uuid"
    by (auto simp: getOrCreateAccount_def Let_def)
  have "find (\<lambda>a. key_hash a = h) (accounts d @ [?new]) = Some ?new"
    using None by (simp add: find_append_None)
  then show ?thesis
    unfolding d' find_touch_account a by simp
next
  case (Some row)
  with assms have d': "accounts d' = touch_account s (acc_id row) (accounts d)"
    and a: "a = row"
    by (auto simp: getOrCreateAccount_def)
  show ?thesis
    unfolding d' find_touch_account a using Some by simp
qed

lemma getOrCreateAccount_known:
  assumes "find (\<lambda>a. key_hash a = h) (accounts d) = Some row"
  shows "getOrCreateAccount uuid c s h p d =
           Inr ((row, False), d\<lparr>accounts := touch_account s (acc_id row) (accounts d)\<rparr>)"
  using assms by (simp add: getOrCreateAccount_def)

lemma getOrCreateAccount_succeeds:
  assumes "uuid \<notin> set (map acc_id (accounts d)) \<or> h \<in> set (map key_hash (accounts d))"
  shows "\<exists>r. getOrCreateAccount uuid c s h p d = Inr r"
proof (cases "find (\<lambda>a. key_hash a = h) (accounts d)")
  case None
  then have "h \<notin> set (map key_hash (accounts d))"
    by (auto simp: find_None_iff)
  with assms have "uuid \<notin> set (map acc_id (accounts d))" by blast
  with None show ?thesis
    unfolding getOrCreateAccount_def Let_def by (simp del: ex_simps) blast
next
  case (Some row)
  then show ?thesis
    unfolding getOrCreateAccount_def by (simp del: ex_simps) blast
qed

text \<open>
  Claim C8. For every key hash: when a call of \<open>getOrCreateAccount\<close> with the hash has
  returned, a second call with the same hash (whatever provider, generated identifier
  and time it is given) returns an account with the same identifier and reports no
  creation; it inserts no row (the identifiers and the hashes of the rows are the
  same before and after it); and after each of the two calls the account's row carries
  that call's time as \<open>last_seen_at\<close>. A first call returns whenever the hash is known
  or the generated identifier is fresh.
\<close>

theorem getOrCreateAccount_idempotent:
  "(getOrCreateAccount uuid1 c1 s1 h p1 d = Inr ((a1, created1), d1) \<longrightarrow>
      (\<exists>a2 d2. getOrCreateAccount uuid2 c2 s2 h p2 d1 = Inr ((a2, False), d2) \<and>
         acc_id a2 = acc_id a1 \<and>
         length (accounts d2) = length (accounts d1) \<and>
         map acc_id (accounts d2) = map acc_id (accounts d1) \<and>
         map key_hash (accounts d2) = map key_hash (accounts d1) \<and>
         (\<exists>row. find (\<lambda>a. key_hash a = h) (accounts d1) = Some row \<and>
            acc_id row = acc_id a1 \<and> last_seen_at row = Some s1) \<and>
         (\<exists>row. find (\<lambda>a. key_hash a = h) (accounts d2) = Some row \<and>
            acc_id row = acc_id a1 \<and> last_seen_at row = Some s2))) \<and>
   (uuid1 \<notin> set (map acc_id (accounts d)) \<or> h \<in> set (map key_hash (accounts d)) \<longrightarrow>
      (\<exists>r. getOrCreateAccount uuid1 c1 s1 h p1 d = Inr r))"
proof (intro conjI impI)
  assume first: "getOrCreateAccount uuid1 c1 s1 h p1 d = Inr ((a1, created1), d1)"
  from getOrCreateAccount_row [OF first]
  obtain row where row: "find (\<lambda>a. key_hash a = h) (accounts d1) = Some row"
    "acc_id row = acc_id a1" "last_seen_at row = Some s1"
    by blast
  let ?d2 = "d1\<lparr>accounts := touch_account s2 (acc_id row) (accounts d1)\<rparr>"
  have second: "getOrCreateAccount uuid2 c2 s2 h p2 d1 = Inr ((row, False), ?d2)"
    using row(1) by (rule getOrCreateAccount_known)
  from getOrCreateAccount_row [OF second] row(2)
  have "\<exists>r. find (\<lambda>a. key_hash a = h) (accounts ?d2) = Some r \<and>
      acc_id r = acc_id a1 \<and> last_seen_at r = Some s2"
    by simp
  with second row
  show "\<exists>a2 d2. getOrCreateAccount uuid2 c2 s2 h p2 d1 = Inr ((a2, False), d2) \<and>
         acc_id a2 = acc_id a1 \<and>
         length (accounts d2) = length (accounts d1) \<and>
         map acc_id (accounts d2) = map acc_id (accounts d1) \<and>
         map key_hash (accounts d2) = map key_hash (accounts d1) \<and>
         (\<exists>row. find (\<lambda>a. key_hash a = h) (accounts d1) = Some row \<and>
            acc_id row = acc_id a1 \<and> last_seen_at row = Some s1) \<and>
         (\<exists>row. find (\<lambda>a. key_hash a = h) (accounts d2) = Some row \<and>
            acc_id row = acc_id a1 \<and> last_seen_at row = Some s2)"
    by (intro exI [of _ row] exI [of _ ?d2])
      (simp add: length_touch_account ids_touch_account hashes_touch_account)
next
  assume "uuid1 \<notin> set (map acc_id (accounts d)) \<or> h \<in> set (map key_hash (accounts d))"
  then show "\<exists>r. getOrCreateAccount uuid1 c1 s1 h p1 d = Inr r"
    by (rule getOrCreateAccount_succeeds)
qed

theorem getOrCreateAccount_idempotent_witness:
  "getOrCreateAccount ''u1'' ''t0'' ''t1'' ''h'' ''openai'' \<lparr>accounts = [], tasks = []\<rparr> =
     Inr ((\<lparr>acc_id = ''u1'', key_hash = ''h'', acc_provider = ''openai'',
            acc_created_at = None, last_seen_at = None\<rparr>, True),
          \<lparr>accounts = [\<lparr>acc_id = ''u1'', key_hash = ''h'', acc_provider = ''openai'',
                        acc_created_at = Some ''t0'', last_seen_at = Some ''t1''\<rparr>],
           tasks = []\<rparr>) \<and>
   (\<exists>a2 d2. getOrCreateAccount ''u2'' ''t2'' ''t3'' ''h'' ''anthropic''
        \<lparr>accounts = [\<lparr>acc_id = ''u1'', key_hash = ''h'', acc_provider = ''openai'',
                        acc_created_at = Some ''t0'', last_seen_at = Some ''t1''\<rparr>],
         tasks = []\<rparr> = Inr ((a2, False), d2) \<and>
      acc_id a2 = ''u1'' \<and> length (accounts d2) = 1)"
proof -
  let ?d = "\<lparr>accounts = [], tasks = []\<rparr>"
  let ?a1 = "\<lparr>acc_id = ''u1'', key_hash = ''h'', acc_provider = ''openai'',
              acc_created_at = None, last_seen_at = None\<rparr>"
  let ?d1 = "\<lparr>accounts = [\<lparr>acc_id = ''u1'', key_hash = ''h'', acc_provider = ''openai'',
                        acc_created_at = Some ''t0'', last_seen_at = Some ''t1''\<rparr>],
              tasks = []\<rparr>"
  have first: "getOrCreateAccount ''u1'' ''t0'' ''t1'' ''h'' ''openai'' ?d = Inr ((?a1, True), ?d1)"
    by (simp add: getOrCreateAccount_def touch_account_def)
  from getOrCreateAccount_idempotent
    [of "''u1''" "''t0''" "''t1''" "''h''" "''openai''" ?d ?a1 True ?d1
        "''u2''" "''t2''" "''t3''" "''anthropic''"] first
  have "\<exists>a2 d2. getOrCreateAccount ''u2'' ''t2'' ''t3'' ''h'' ''anthropic'' ?d1 =
          Inr ((a2, False), d2) \<and> acc_id a2 = ''u1'' \<and> length (accounts d2) = 1"
    by (elim conjE impE) auto
  with first show ?thesis by blast
qed

section \<open>A task is completed at most once\<close>

lemma complete_task_tasks:
  "tasks (snd (complete_task stringify now a tid body d)) = tasks d \<or>
   (\<exists>st dur. st \<in> set [''success'', ''failed'', ''slow''] \<and>
      tasks (snd (complete_task stringify now a tid body d)) =
        map (\<lambda>t. if completes a tid t then completed_row stringify now st dur body t else t)
          (tasks d))"
  unfolding complete_task_def Let_def
  by (cases "body_status body"; cases "body_durationMs body") auto

lemma completed_row_status: "status (completed_row stringify now st dur body t) = st"
  by (simp add: completed_row_def)

lemma complete_task_row:
  assumes "i < length (tasks d)"
  shows "i < length (tasks (snd (complete_task stringify now a tid body d))) \<and>
    (tasks (snd (complete_task stringify now a tid body d)) ! i = tasks d ! i \<or>
     status (tasks d ! i) = ''running'' \<and> task_id (tasks d ! i) = tid \<and>
     status (tasks (snd (complete_task stringify now a tid body d)) ! i)
       \<in> set [''success'', ''failed'', ''slow''])"
proof -
  let ?ts = "tasks (snd (complete_task stringify now a tid body d))"
  from complete_task_tasks [of stringify now a tid body d]
  consider "?ts = tasks d"
    | st dur where "st \<in> set [''success'', ''failed'', ''slow'']"
        "?ts = map (\<lambda>t. if completes a tid t then completed_row stringify now st dur body t else t)
                 (tasks d)"
    by blast
  then show ?thesis
  proof cases
    case 1
    with assms show ?thesis by simp
  next
    case 2
    show ?thesis
    proof (cases "completes a tid (tasks d ! i)")
      case True
      with 2 assms show ?thesis
        by (simp add: completed_row_status) (simp add: completes_def)
    next
      case False
      with 2 assms show ?thesis by simp
    qed
  qed
qed

lemma complete_task_terminal_row:
  assumes "i < length (tasks d)" and "status (tasks d ! i) \<noteq> ''running''"
  shows "i < length (tasks (snd (complete_task stringify now a tid body d))) \<and>
         tasks (snd (complete_task stringify now a tid body d)) ! i = tasks d ! i"
  using complete_task_row [OF assms(1), of stringify now a tid body] assms(2) by blast

lemma complete_all_terminal_row:
  assumes "i < length (tasks d)" and "status (tasks d ! i) \<noteq> ''running''"
  shows "i < length (tasks (complete_all stringify rs d)) \<and>
         tasks (complete_all stringify rs d) ! i = tasks d ! i"
  using assms
proof (induction rs arbitrary: d)
  case Nil
  then show ?case by simp
next
  case (Cons r rs)
  obtain now a tid body where r: "r = (now, a, tid, body)" by (cases r)
  let ?d = "snd (complete_task stringify now a tid body d)"
  from complete_task_terminal_row [OF Cons.prems, of stringify now a tid body]
  have step: "i < length (tasks ?d)" "tasks ?d ! i = tasks d ! i" by simp_all
  with Cons.prems(2) have "status (tasks ?d ! i) \<noteq> ''running''" by simp
  with Cons.IH [OF step(1)] step(2) show ?case by (simp add: r)
qed

lemma complete_task_no_running:
  assumes "\<forall>t \<in> set (tasks d). task_id t = tid \<longrightarrow> status t \<noteq> ''running''"
  shows "snd (complete_task stringify now a tid body d) = d"
    and "body_status body = Some st \<Longrightarrow> st \<in> set [''success'', ''failed'', ''slow''] \<Longrightarrow>
         body_durationMs body = Some dur \<Longrightarrow>
         fst (complete_task stringify now a tid body d) = not_running"
proof -
  from assms have none: "\<And>t. t \<in> set (tasks d) \<Longrightarrow> \<not> completes a tid t"
    by (auto simp: completes_def)
  then have m: "map (\<lambda>t. if completes a tid t then f t else t) (tasks d) = tasks d" for f
    by (induction "tasks d") (auto simp: map_idI)
  from none have f: "filter (completes a tid) (tasks d) = []"
    by (simp add: filter_empty_conv)
  show "snd (complete_task stringify now a tid body d) = d"
    unfolding complete_task_def Let_def
    by (cases "body_status body"; cases "body_durationMs body") (simp_all add: m f)
  show "fst (complete_task stringify now a tid body d) = not_running"
    if "body_status body = Some st" "st \<in> set [''success'', ''failed'', ''slow'']"
      "body_durationMs body = Some dur"
    using that unfolding complete_task_def Let_def by (auto simp: m f)
qed

text \<open>
  Claim C1. When no task with the given identifier is in state \<open>running\<close> (the task is
  in another state, or there is none), the completion handler leaves the stored state
  as it is, and answers a well-formed request (a status among \<open>success\<close>, \<open>failed\<close>,
  \<open>slow\<close>, and a duration) with 404, task not found or not in running state; a
  malformed request is refused with 400 before the table is read. In general a
  completion changes no row but rows in state \<open>running\<close>, and leaves a changed row in
  one of the terminal states; so whatever sequence of completion requests follows, a
  row that is not \<open>running\<close> keeps every field: a span goes from \<open>running\<close> to a
  terminal state at most once.
\<close>

theorem complete_task_not_running_noop:
  "((\<forall>t \<in> set (tasks d). task_id t = tid \<longrightarrow> status t \<noteq> ''running'') \<longrightarrow>
      snd (complete_task stringify now a tid body d) = d \<and>
      fst (complete_task stringify now a tid body d)
        \<in> {not_running, missing_fields, invalid_status} \<and>
      (body_status body = Some st \<and> st \<in> set [''success'', ''failed'', ''slow''] \<and>
       body_durationMs body = Some dur \<longrightarrow>
         fst (complete_task stringify now a tid body d) = not_running)) \<and>
   (i < length (tasks d) \<longrightarrow>
      i < length (tasks (snd (complete_task stringify now a tid body d))) \<and>
      (tasks (snd (complete_task stringify now a tid body d)) ! i = tasks d ! i \<or>
       status (tasks d ! i) = ''running'' \<and>
       status (tasks (snd (complete_task stringify now a tid body d)) ! i)
         \<in> set [''success'', ''failed'', ''slow''])) \<and>
   (i < length (tasks d) \<and> status (tasks d ! i) \<noteq> ''running'' \<longrightarrow>
      i < length (tasks (complete_all stringify rs d)) \<and>
      tasks (complete_all stringify rs d) ! i = tasks d ! i)"
proof (intro conjI impI)
  assume nr: "\<forall>t \<in> set (tasks d). task_id t = tid \<longrightarrow> status t \<noteq> ''running''"
  then show same: "snd (complete_task stringify now a tid body d) = d"
    by (rule complete_task_no_running(1))
  from nr have none: "filter (completes a tid) (tasks d) = []"
    by (auto simp: filter_empty_conv completes_def)
  show "fst (complete_task stringify now a tid body d)
      \<in> {not_running, missing_fields, invalid_status}"
    unfolding complete_task_def Let_def
    by (cases "body_status body"; cases "body_durationMs body") (simp_all add: none)
  show "fst (complete_task stringify now a tid body d) = not_running"
    if "body_status body = Some st \<and> st \<in> set [''success'', ''failed'', ''slow''] \<and>
        body_durationMs body = Some dur"
    using that complete_task_no_running(2) [OF nr] by blast
next
  assume "i < length (tasks d)"
  from complete_task_row [OF this, of stringify now a tid body]
  show "i < length (tasks (snd (complete_task stringify now a tid body d)))"
    and "tasks (snd (complete_task stringify now a tid body d)) ! i = tasks d ! i \<or>
       status (tasks d ! i) = ''running'' \<and>
       status (tasks (snd (complete_task stringify now a tid body d)) ! i)
         \<in> set [''success'', ''failed'', ''slow'']"
    by blast+
next
  assume "i < length (tasks d) \<and> status (tasks d ! i) \<noteq> ''running''"
  then have "i < length (tasks d)" "status (tasks d ! i) \<noteq> ''running''" by simp_all
  from complete_all_terminal_row [OF this, of stringify rs]
  show "i < length (tasks (complete_all stringify rs d))"
    and "tasks (complete_all stringify rs d) ! i = tasks d ! i"
    by simp_all
qed

theorem complete_task_not_running_noop_witness:
  "(let d = \<lparr>accounts = [], tasks = [finished_span]\<rparr>;
        a = \<lparr>apiKey_id = None, accountId = Some ''acct''\<rparr>;
        body = \<lparr>body_status = Some ''failed'', body_durationMs = Some 5, body_cost = None,
                body_error = Some ''late'', body_model = None, body_prompt = None,
                body_completion = None, body_tokens_in = None, body_tokens_out = None,
                body_metadata = None\<rparr>
    in status finished_span = ''success'' \<and>
       complete_task (\<lambda>_. ''{}'') ''2026-01-02T00:00:00.000Z'' a ''span-1'' body d = (not_running, d) \<and>
       tasks (complete_all (\<lambda>_. ''{}'')
                [(''2026-01-02T00:00:00.000Z'', a, ''span-1'', body),
                 (''2026-01-03T00:00:00.000Z'', a, ''span-1'', body)] d) ! 0 = finished_span)"
proof -
  let ?d = "\<lparr>accounts = [], tasks = [finished_span]\<rparr>"
  let ?a = "\<lparr>apiKey_id = None, accountId = Some ''acct''\<rparr>"
  let ?body = "\<lparr>body_status = Some ''failed'', body_durationMs = Some 5, body_cost = None,
                body_error = Some ''late'', body_model = None, body_prompt = None,
                body_completion = None, body_tokens_in = None, body_tokens_out = None,
                body_metadata = None\<rparr>"
  let ?rs = "[(''2026-01-02T00:00:00.000Z'', ?a, ''span-1'', ?body),
              (''2026-01-03T00:00:00.000Z'', ?a, ''span-1'', ?body)]"
  have st: "status finished_span = ''success''"
    by (simp add: finished_span_def)
  then have h1: "\<forall>t \<in> set (tasks ?d). task_id t = ''span-1'' \<longrightarrow> status t \<noteq> ''running''"
    by simp
  have h2: "body_status ?body = Some ''failed'' \<and> ''failed'' \<in> set [''success'', ''failed'', ''slow''] \<and>
      body_durationMs ?body = Some 5"
    by simp
  have h3: "0 < length (tasks ?d) \<and> status (tasks ?d ! 0) \<noteq> ''running''"
    using st by simp
  note inst = complete_task_not_running_noop
    [of ?d "''span-1''" "\<lambda>_. ''{}''" "''2026-01-02T00:00:00.000Z''" ?a ?body "''failed''" 5 0 ?rs]
  from inst h1 h2
  have "snd (complete_task (\<lambda>_. ''{}'') ''2026-01-02T00:00:00.000Z'' ?a ''span-1'' ?body ?d) = ?d"
    and "fst (complete_task (\<lambda>_. ''{}'') ''2026-01-02T00:00:00.000Z'' ?a ''span-1'' ?body ?d)
      = not_running"
    by blast+
  then have c: "complete_task (\<lambda>_. ''{}'') ''2026-01-02T00:00:00.000Z'' ?a ''span-1'' ?body ?d
      = (not_running, ?d)"
    by (simp add: prod_eq_iff)
  from inst h3 have "tasks (complete_all (\<lambda>_. ''{}'') ?rs ?d) ! 0 = tasks ?d ! 0"
    by blast
  then have "tasks (complete_all (\<lambda>_. ''{}'') ?rs ?d) ! 0 = finished_span"
    by simp
  with st c show ?thesis
    unfolding Let_def by blast
qed

section \<open>The row a retry creates\<close>



section \<open>The forest and the summary of a trace\<close>

lemma fold_index_other:
  "k \<notin> set (map task_id spans) \<Longrightarrow> fold index_span spans m k = m k"
  by (induction spans arbitrary: m) (auto simp: index_span_def)

lemma fold_index_span:
  "distinct (map task_id spans) \<Longrightarrow> s \<in> set spans \<Longrightarrow>
   fold index_span spans m (task_id s) = Some \<lparr>span = s, children = []\<rparr>"
proof (induction spans arbitrary: m)
  case Nil
  then show ?case by simp
next
  case (Cons x xs)
  show ?case
  proof (cases "s \<in> set xs")
    case True
    with Cons show ?thesis by simp
  next
    case False
    with Cons.prems have sx: "s = x" and fresh: "task_id x \<notin> set (map task_id xs)" by auto
    have "fold index_span (x # xs) m (task_id x) = index_span x m (task_id x)"
      using fold_index_other [OF fresh, of "index_span x m"] by simp
    also have "index_span x m (task_id x) = Some \<lparr>span = x, children = []\<rparr>"
      by (simp add: index_span_def)
    finally show ?thesis by (simp only: sx)
  qed
qed

lemma index_spans_span:
  "distinct (map task_id spans) \<Longrightarrow> s \<in> set spans \<Longrightarrow>
   index_spans spans (task_id s) = Some \<lparr>span = s, children = []\<rparr>"
  unfolding index_spans_def by (rule fold_index_span)

lemma index_spans_dom: "dom (index_spans spans) = set (map task_id spans)"
proof -
  have "dom (fold index_span spans m) = dom m \<union> set (map task_id spans)" for m
    by (induction spans arbitrary: m) (auto simp: index_span_def)
  then show ?thesis by (simp add: index_spans_def)
qed

lemma child_ids_Cons:
  "child_ids (s # ss) k =
     (if or_null (parent_id s) = Some k then task_id s # child_ids ss k else child_ids ss k)"
  by (simp add: child_ids_def)

lemma link_spans_forest:
  assumes "dom m = D"
    and "\<forall>s \<in> set ss. \<forall>p. or_null (parent_id s) = Some p \<longrightarrow>
           p \<in> D \<or> p \<notin> set Object_prototype_keys"
  shows "\<exists>m'. link_spans ss (m, roots) =
           Inr (m', roots @ map task_id
                  (filter (\<lambda>s. case or_null (parent_id s) of None \<Rightarrow> True | Some p \<Rightarrow> p \<notin> D) ss)) \<and>
         (\<forall>k. m' k = map_option (\<lambda>n. n\<lparr>children := children n @ child_ids ss k\<rparr>) (m k))"
  using assms
proof (induction ss arbitrary: m roots)
  case Nil
  then show ?case by (simp add: child_ids_def option.map_ident)
next
  case (Cons s ss)
  from Cons.prems(2)
  have tl: "\<forall>s \<in> set ss. \<forall>p. or_null (parent_id s) = Some p \<longrightarrow>
      p \<in> D \<or> p \<notin> set Object_prototype_keys"
    by simp
  show ?case
  proof (cases "or_null (parent_id s)")
    case None
    then have step: "link_span s (m, roots) = Inr (m, roots @ [task_id s])"
      by (simp add: link_span_def)
    from Cons.IH [OF Cons.prems(1) tl, of "roots @ [task_id s]"]
    obtain m' where m': "link_spans ss (m, roots @ [task_id s]) =
        Inr (m', (roots @ [task_id s]) @ map task_id
           (filter (\<lambda>s. case or_null (parent_id s) of None \<Rightarrow> True | Some p \<Rightarrow> p \<notin> D) ss))"
      "\<forall>k. m' k = map_option (\<lambda>n. n\<lparr>children := children n @ child_ids ss k\<rparr>) (m k)"
      by blast
    from m'(1) step None have "link_spans (s # ss) (m, roots) =
        Inr (m', roots @ map task_id
           (filter (\<lambda>s. case or_null (parent_id s) of None \<Rightarrow> True | Some p \<Rightarrow> p \<notin> D) (s # ss)))"
      by simp
    moreover from m'(2) None
    have "\<forall>k. m' k = map_option (\<lambda>n. n\<lparr>children := children n @ child_ids (s # ss) k\<rparr>) (m k)"
      by (simp add: child_ids_Cons)
    ultimately show ?thesis by blast
  next
    case parent: (Some p)
    show ?thesis
    proof (cases "m p")
      case None
      with Cons.prems(1) have notin: "p \<notin> D" by (auto simp: domIff)
      with Cons.prems(2) parent have "p \<notin> set Object_prototype_keys" by auto
      with None parent have step: "link_span s (m, roots) = Inr (m, roots @ [task_id s])"
        by (simp add: link_span_def node_get_def)
      from Cons.IH [OF Cons.prems(1) tl, of "roots @ [task_id s]"]
      obtain m' where m': "link_spans ss (m, roots @ [task_id s]) =
          Inr (m', (roots @ [task_id s]) @ map task_id
             (filter (\<lambda>s. case or_null (parent_id s) of None \<Rightarrow> True | Some p \<Rightarrow> p \<notin> D) ss))"
        "\<forall>k. m' k = map_option (\<lambda>n. n\<lparr>children := children n @ child_ids ss k\<rparr>) (m k)"
        by blast
      from m'(1) step parent notin have "link_spans (s # ss) (m, roots) =
          Inr (m', roots @ map task_id
             (filter (\<lambda>s. case or_null (parent_id s) of None \<Rightarrow> True | Some p \<Rightarrow> p \<notin> D) (s # ss)))"
        by simp
      moreover have
        "m' k = map_option (\<lambda>n. n\<lparr>children := children n @ child_ids (s # ss) k\<rparr>) (m k)" for k
        using m'(2) None parent by (cases "k = p") (simp_all add: child_ids_Cons)
      ultimately show ?thesis by blast
    next
      case (Some n)
      define m1 where "m1 = m(p \<mapsto> n\<lparr>children := children n @ [task_id s]\<rparr>)"
      from Some parent have step: "link_span s (m, roots) = Inr (m1, roots)"
        by (simp add: link_span_def node_get_def m1_def)
      from Some Cons.prems(1) have dom: "dom m1 = D" and "p \<in> D"
        by (auto simp: m1_def)
      from Cons.IH [OF dom tl, of roots]
      obtain m' where m': "link_spans ss (m1, roots) =
          Inr (m', roots @ map task_id
             (filter (\<lambda>s. case or_null (parent_id s) of None \<Rightarrow> True | Some p \<Rightarrow> p \<notin> D) ss))"
        "\<forall>k. m' k = map_option (\<lambda>n. n\<lparr>children := children n @ child_ids ss k\<rparr>) (m1 k)"
        by blast
      from m'(1) step parent \<open>p \<in> D\<close> have "link_spans (s # ss) (m, roots) =
          Inr (m', roots @ map task_id
             (filter (\<lambda>s. case or_null (parent_id s) of None \<Rightarrow> True | Some p \<Rightarrow> p \<notin> D) (s # ss)))"
        by simp
      moreover have
        "m' k = map_option (\<lambda>n. n\<lparr>children := children n @ child_ids (s # ss) k\<rparr>) (m k)" for k
        using m'(2) Some parent by (cases "k = p") (simp_all add: child_ids_Cons m1_def)
      ultimately show ?thesis by blast
    qed
  qed
qed

lemma foldl_add_sum_list:
  "foldl (\<lambda>sum s. sum + f s) a xs = a + sum_list (map f xs)"
  for a :: "'a :: comm_monoid_add"
  by (induction xs arbitrary: a) (simp_all add: add.assoc)

text \<open>
  Where no span names an inherited member as its parent, the assembly is as the
  specification says: the roots are the spans without a resolvable parent, the node of
  each span lists the spans whose parent it is, and the summary counts the spans and
  sums their durations, costs and token counts.
\<close>

lemma assemble_trace_forest:
  assumes "spans \<noteq> []" and "distinct (map task_id spans)" and "plain_parents spans"
  shows "\<exists>summ roots spanMap.
      assemble_trace traceId spans = Inr (Trace summ roots spanMap spans) \<and>
      roots = map task_id (filter (\<lambda>s. \<not> resolvable spans s) spans) \<and>
      (\<forall>s \<in> set spans.
         spanMap (task_id s) = Some \<lparr>span = s, children = child_ids spans (task_id s)\<rparr>) \<and>
      span_count summ = length spans \<and>
      total_duration_ms summ = sum_list (map duration_ms spans) \<and>
      total_cost summ = sum_list (map (\<lambda>s. or0 (cost s)) spans) \<and>
      total_tokens_in summ = sum_list (map (\<lambda>s. or_zero (tokens_in s)) spans) \<and>
      total_tokens_out summ = sum_list (map (\<lambda>s. or_zero (tokens_out s)) spans)"
proof -
  let ?D = "set (map task_id spans)"
  let ?roots = "map task_id
     (filter (\<lambda>s. case or_null (parent_id s) of None \<Rightarrow> True | Some p \<Rightarrow> p \<notin> ?D) spans)"
  from assms(3) have "\<forall>s \<in> set spans. \<forall>p. or_null (parent_id s) = Some p \<longrightarrow>
             p \<in> ?D \<or> p \<notin> set Object_prototype_keys"
    by (auto simp: plain_parents_def list_all_iff)
  from link_spans_forest [OF index_spans_dom this, of "[]"]
  obtain m' where link: "link_spans spans (index_spans spans, []) = Inr (m', ?roots)"
    and m': "\<forall>k. m' k = map_option (\<lambda>n. n\<lparr>children := children n @ child_ids spans k\<rparr>)
                          (index_spans spans k)"
    by auto
  obtain first_span rest where sp: "spans = first_span # rest"
    using assms(1) by (cases spans) auto
  let ?summ = "summarize traceId first_span spans"
  have asm: "assemble_trace traceId spans = Inr (Trace ?summ ?roots m' spans)"
    unfolding assemble_trace_def using link by (simp add: sp)
  have roots: "?roots = map task_id (filter (\<lambda>s. \<not> resolvable spans s) spans)"
  proof -
    have "(case or_null (parent_id s) of None \<Rightarrow> True | Some p \<Rightarrow> p \<notin> ?D)
        = (\<not> resolvable spans s)" for s
      by (simp add: resolvable_def split: option.splits)
    then show ?thesis by simp
  qed
  have nodes: "\<forall>s \<in> set spans.
      m' (task_id s) = Some \<lparr>span = s, children = child_ids spans (task_id s)\<rparr>"
    using index_spans_span [OF assms(2)] m' by simp
  have summ: "span_count ?summ = length spans"
    "total_duration_ms ?summ = sum_list (map duration_ms spans)"
    "total_cost ?summ = sum_list (map (\<lambda>s. or0 (cost s)) spans)"
    "total_tokens_in ?summ = sum_list (map (\<lambda>s. or_zero (tokens_in s)) spans)"
    "total_tokens_out ?summ = sum_list (map (\<lambda>s. or_zero (tokens_out s)) spans)"
    by (simp_all add: summarize_def foldl_add_sum_list)
  from asm roots nodes summ show ?thesis by blast
qed

text \<open>
  The scenario of the specification: three spans, the second and the third with the
  first as parent, assemble into one root with two children.
\<close>

lemma assemble_trace_three_spans:
  assumes "distinct [task_id A, task_id B, task_id C]" and "task_id A \<noteq> []"
    and "parent_id A = None"
    and "parent_id B = Some (task_id A)" and "parent_id C = Some (task_id A)"
  shows "\<exists>summ spanMap.
      assemble_trace traceId [A, B, C] = Inr (Trace summ [task_id A] spanMap [A, B, C]) \<and>
      spanMap (task_id A) = Some \<lparr>span = A, children = [task_id B, task_id C]\<rparr> \<and>
      spanMap (task_id B) = Some \<lparr>span = B, children = []\<rparr> \<and>
      spanMap (task_id C) = Some \<lparr>span = C, children = []\<rparr> \<and>
      span_count summ = 3"
proof -
  have pp: "plain_parents [A, B, C]"
    using assms by (simp add: plain_parents_def or_null_def)
  have ne: "[A, B, C] \<noteq> []" by simp
  have d: "distinct (map task_id [A, B, C])" using assms(1) by simp
  from assemble_trace_forest [OF ne d pp, of traceId]
  obtain summ roots spanMap where
    r: "assemble_trace traceId [A, B, C] = Inr (Trace summ roots spanMap [A, B, C])"
      "roots = map task_id (filter (\<lambda>s. \<not> resolvable [A, B, C] s) [A, B, C])"
      "\<forall>s \<in> set [A, B, C].
         spanMap (task_id s) = Some \<lparr>span = s, children = child_ids [A, B, C] (task_id s)\<rparr>"
      "span_count summ = length [A, B, C]"
    by blast
  from r(2) assms have "roots = [task_id A]"
    by (simp add: resolvable_def or_null_def)
  moreover from r(3) assms
  have "spanMap (task_id A) = Some \<lparr>span = A, children = [task_id B, task_id C]\<rparr>"
    "spanMap (task_id B) = Some \<lparr>span = B, children = []\<rparr>"
    "spanMap (task_id C) = Some \<lparr>span = C, children = []\<rparr>"
    by (auto simp: child_ids_def or_null_def)
  ultimately show ?thesis using r(1,4) by simp
qed

text \<open>
  Claim C6 asks, for every non-empty set of spans of a trace, that a span without a
  resolvable parent be a root. A span whose \<^verbatim>\<open>parent_id\<close> is the name of a member
  inherited from \<^verbatim>\<open>Object.prototype\<close> has no resolvable parent, and the handler does
  not make it a root: the read \<^verbatim>\<open>spanMap[span.parent_id]\<close> finds the inherited
  member, and the handler throws. (For every other trace the assembly is as claimed:
  \<open>assemble_trace_forest\<close>, \<open>assemble_trace_three_spans\<close>.)
\<close>

theorem get_trace_throws_at_inherited_parent:
  "trace_spans \<lparr>apiKey_id = None, accountId = Some ''acct''\<rparr> ''trace-1''
     \<lparr>accounts = [], tasks = [finished_span\<lparr>parent_id := Some ''constructor''\<rparr>]\<rparr>
     = [finished_span\<lparr>parent_id := Some ''constructor''\<rparr>] \<and>
   \<not> resolvable [finished_span\<lparr>parent_id := Some ''constructor''\<rparr>]
       (finished_span\<lparr>parent_id := Some ''constructor''\<rparr>) \<and>
   get_trace \<lparr>apiKey_id = None, accountId = Some ''acct''\<rparr> ''trace-1''
     \<lparr>accounts = [], tasks = [finished_span\<lparr>parent_id := Some ''constructor''\<rparr>]\<rparr>
     = Inl TypeError"
  by (simp add: get_trace_def trace_spans_def assemble_trace_def index_spans_def
      index_span_def link_span_def node_get_def or_null_def owned_by_def finished_span_def resolvable_def
      Object_prototype_keys_def)

section \<open>Properties of the line functions\<close>

lemma js_split_not_Nil: "js_split sep s \<noteq> []"
  by (induction s) (auto split: list.splits)




section \<open>The reconstructed messages\<close>









section \<open>Reading a stream piece by piece\<close>

lemma js_split_append:
  "js_split sep (a @ b) =
     butlast (js_split sep a) @ js_split sep (last (js_split sep a) @ b)"
proof (induction a)
  case Nil
  then show ?case by simp
next
  case (Cons c a)
  obtain l ls where sp: "js_split sep a = l # ls"
    using js_split_not_Nil [of sep a] by (cases "js_split sep a") auto
  show ?case
  proof (cases "c = sep")
    case True
    with Cons sp show ?thesis by simp
  next
    case False
    show ?thesis
    proof (cases ls)
      case Nil
      obtain l' ls' where sp': "js_split sep (l @ b) = l' # ls'"
        using js_split_not_Nil [of sep "l @ b"] by (cases "js_split sep (l @ b)") auto
      with Cons sp Nil False show ?thesis by simp
    next
      case (Cons x xs)
      with Cons.IH sp False show ?thesis by simp
    qed
  qed
qed

lemma js_split_line:
  "sep \<notin> set l \<Longrightarrow> js_split sep (l @ sep # rest) = l # js_split sep rest"
proof (induction l)
  case Nil
  then show ?case by simp
next
  case (Cons c l)
  then show ?case by auto
qed

lemma js_split_no_sep: "sep \<notin> set s \<Longrightarrow> js_split sep s = [s]"
  by (induction s) auto

lemma js_split_parts: "l \<in> set (js_split sep s) \<Longrightarrow> sep \<notin> set l"
proof (induction s arbitrary: l)
  case Nil
  then show ?case by simp
next
  case (Cons c s)
  obtain x xs where sp: "js_split sep s = x # xs"
    using js_split_not_Nil [of sep s] by (cases "js_split sep s") auto
  with Cons show ?case by (auto split: if_splits)
qed

lemma js_split_lines:
  assumes "list_all (\<lambda>l. newline \<notin> set l) lines"
  shows "js_split newline (concat (map (\<lambda>l. l @ [newline]) lines)) = lines @ [[]]"
  using assms by (induction lines) (simp_all add: js_split_line)

lemma on_message_start_buffer:
  "on_message_start event (st\<lparr>buffer := b\<rparr>) = (on_message_start event st)\<lparr>buffer := b\<rparr>"
  by (simp add: on_message_start_def)

lemma on_message_delta_buffer:
  "on_message_delta event (st\<lparr>buffer := b\<rparr>) = (on_message_delta event st)\<lparr>buffer := b\<rparr>"
  by (simp add: on_message_delta_def)

lemma on_content_block_delta_buffer:
  "on_content_block_delta taskId mdl event (st\<lparr>buffer := b\<rparr>) =
     (on_content_block_delta taskId mdl event st)\<lparr>buffer := b\<rparr>"
  by (simp add: on_content_block_delta_def split: option.splits)

lemma on_message_stop_buffer:
  "on_message_stop taskId mdl event (st\<lparr>buffer := b\<rparr>) =
     (on_message_stop taskId mdl event st)\<lparr>buffer := b\<rparr>"
  by (simp add: on_message_stop_def)

lemma relay_line_buffer:
  "relay_line parse taskId mdl (st\<lparr>buffer := b\<rparr>) line =
     (relay_line parse taskId mdl st line)\<lparr>buffer := b\<rparr>"
  by (simp add: relay_line_def on_message_stop_buffer on_content_block_delta_buffer
      on_message_delta_buffer on_message_start_buffer Let_def split: option.splits)

lemma foldl_relay_line_buffer:
  "foldl (relay_line parse taskId mdl) (st\<lparr>buffer := b\<rparr>) lines =
     (foldl (relay_line parse taskId mdl) st lines)\<lparr>buffer := b\<rparr>"
  by (induction lines arbitrary: st) (simp_all add: relay_line_buffer)

lemma relay_reads:
  assumes "newline \<notin> set (buffer st)"
  shows "foldl (relay_read parse taskId mdl) st pieces =
     (foldl (relay_line parse taskId mdl) st
        (butlast (js_split newline (buffer st @ concat pieces))))
     \<lparr>buffer := last (js_split newline (buffer st @ concat pieces))\<rparr>"
  using assms
proof (induction pieces arbitrary: st)
  case Nil
  then show ?case by (simp add: js_split_no_sep)
next
  case (Cons p ps)
  let ?L = "js_split newline (buffer st @ p)"
  let ?st1 = "relay_read parse taskId mdl st p"
  have L: "?L \<noteq> []" by (rule js_split_not_Nil)
  have st1: "?st1 = (foldl (relay_line parse taskId mdl) st (butlast ?L))\<lparr>buffer := last ?L\<rparr>"
    using L by (simp add: relay_read_def Let_def foldl_relay_line_buffer)
  then have b1: "buffer ?st1 = last ?L" by simp
  from L have "last ?L \<in> set ?L" by simp
  then have nl: "newline \<notin> set (buffer ?st1)"
    unfolding b1 by (rule js_split_parts)
  let ?R = "js_split newline (last ?L @ concat ps)"
  have R: "?R \<noteq> []" by (rule js_split_not_Nil)
  have split: "js_split newline (buffer st @ concat (p # ps)) = butlast ?L @ ?R"
    using js_split_append [of newline "buffer st @ p" "concat ps"] by simp
  have "foldl (relay_read parse taskId mdl) st (p # ps) =
      foldl (relay_read parse taskId mdl) ?st1 ps"
    by simp
  also have "\<dots> = (foldl (relay_line parse taskId mdl) ?st1 (butlast ?R))\<lparr>buffer := last ?R\<rparr>"
    unfolding Cons.IH [OF nl] b1 ..
  also have "\<dots> = (foldl (relay_line parse taskId mdl) st (butlast ?L @ butlast ?R))
      \<lparr>buffer := last ?R\<rparr>"
    unfolding st1 by (simp add: foldl_relay_line_buffer)
  finally show ?case
    unfolding split using R by (simp add: butlast_append)
qed

lemma relay_line_other: "\<not> prefix ''data: '' line \<Longrightarrow> relay_line parse taskId mdl st line = st"
  by (simp add: relay_line_def)

lemma foldl_relay_line_data:
  "foldl (relay_line parse taskId mdl) st lines =
     foldl (relay_line parse taskId mdl) st (filter (prefix ''data: '') lines)"
  by (induction lines arbitrary: st) (simp_all add: relay_line_other)

lemma relay_line_event:
  assumes "parse payload = Some event" and "event \<noteq> JNull" and "payload \<noteq> ''[DONE]''"
  shows "relay_line parse taskId mdl st (''data: '' @ payload) =
     on_message_stop taskId mdl event
       (on_content_block_delta taskId mdl event
         (on_message_delta event (on_message_start event st)))"
  using assms by (simp add: relay_line_def)

lemma relay_message_start:
  assumes "parse payload = Some (message_start n)" and "payload \<noteq> ''[DONE]''"
  shows "relay_line parse taskId mdl st (''data: '' @ payload) = st\<lparr>tokensIn := n\<rparr>"
proof -
  have ne: "message_start n \<noteq> JNull" by (simp add: message_start_def)
  show ?thesis
    unfolding relay_line_event [of parse payload "message_start n" taskId mdl st, OF assms(1) ne assms(2)]
    by (simp add: message_start_def on_message_stop_def on_content_block_delta_def
      on_message_delta_def on_message_start_def js_get_opt_def count_or_zero_def
      truthy_text_def)
qed

lemma relay_message_delta:
  assumes "parse payload = Some (message_delta n)" and "payload \<noteq> ''[DONE]''"
  shows "relay_line parse taskId mdl st (''data: '' @ payload) = st\<lparr>tokensOut := n\<rparr>"
proof -
  have ne: "message_delta n \<noteq> JNull" by (simp add: message_delta_def)
  show ?thesis
    unfolding relay_line_event [of parse payload "message_delta n" taskId mdl st, OF assms(1) ne assms(2)]
    by (simp add: message_delta_def on_message_stop_def on_content_block_delta_def
      on_message_delta_def on_message_start_def js_get_opt_def count_or_zero_def
      truthy_text_def)
qed

lemma relay_content_block_delta:
  assumes "parse payload = Some (content_block_delta text)" and "payload \<noteq> ''[DONE]''"
    and "text \<noteq> []"
  shows "relay_line parse taskId mdl st (''data: '' @ payload) =
     st\<lparr>completionText := completionText st @ text,
        written := written st @
          [Data \<lparr>chunk_id = ''chatcmpl-'' @ taskId, chunk_model = mdl,
                 delta_content = Some text, finish_reason = None\<rparr>]\<rparr>"
proof -
  have ne: "content_block_delta text \<noteq> JNull" by (simp add: content_block_delta_def)
  show ?thesis
    unfolding relay_line_event [of parse payload "content_block_delta text" taskId mdl st, OF assms(1) ne assms(2)] using assms(3)
    by (simp add: content_block_delta_def on_message_stop_def on_content_block_delta_def
      on_message_delta_def on_message_start_def js_get_opt_def count_or_zero_def
      truthy_text_def)
qed

lemma relay_message_stop:
  assumes "parse payload = Some message_stop" and "payload \<noteq> ''[DONE]''"
  shows "relay_line parse taskId mdl st (''data: '' @ payload) =
     st\<lparr>written := written st @
          [Data \<lparr>chunk_id = ''chatcmpl-'' @ taskId, chunk_model = mdl,
                 delta_content = None, finish_reason = Some ''stop''\<rparr>, Done]\<rparr>"
proof -
  have ne: "message_stop \<noteq> JNull" by (simp add: message_stop_def)
  show ?thesis
    unfolding relay_line_event [of parse payload "message_stop" taskId mdl st, OF assms(1) ne assms(2)]
    by (simp add: message_stop_def on_message_stop_def on_content_block_delta_def
      on_message_delta_def on_message_start_def js_get_opt_def count_or_zero_def
      truthy_text_def)
qed

section \<open>The scenario of the specification\<close>

text \<open>
  Claim C2. Let the upstream body be lines, each ended by a newline and delivered in
  pieces cut anywhere, whose \<^verbatim>\<open>data:\<close> lines carry, in this order, a
  \<open>message_start\<close> event with \<open>input_tokens\<close> 10, three \<open>content_block_delta\<close> events
  with the texts \<open>Hello\<close>, \<open> world\<close> and \<open>!\<close>, a \<open>message_delta\<close> event with
  \<open>output_tokens\<close> 3 and a \<open>message_stop\<close> event. Then the relay writes exactly three
  chunks with these deltas in this order, one terminal chunk (empty delta,
  \<open>finish_reason\<close> \<open>stop\<close>) and the marker \<open>[DONE]\<close>, and the span is updated to
  \<open>success\<close> with the completion \<open>Hello world!\<close>, \<open>tokens_in\<close> 10 and \<open>tokens_out\<close> 3.
\<close>

theorem stream_anthropic_scenario:
  assumes "list_all (\<lambda>l. newline \<notin> set l) lines"
    and "concat pieces = concat (map (\<lambda>l. l @ [newline]) lines)"
    and "filter (prefix ''data: '') lines = map ((@) ''data: '') [p1, p2, p3, p4, p5, p6]"
    and "''[DONE]'' \<notin> set [p1, p2, p3, p4, p5, p6]"
    and "parse p1 = Some (message_start 10)"
    and "parse p2 = Some (content_block_delta ''Hello'')"
    and "parse p3 = Some (content_block_delta '' world'')"
    and "parse p4 = Some (content_block_delta ''!'')"
    and "parse p5 = Some (message_delta 3)"
    and "parse p6 = Some message_stop"
  shows "stream_anthropic parse taskId mdl durationMs now pieces d =
     ([Data \<lparr>chunk_id = ''chatcmpl-'' @ taskId, chunk_model = mdl,
              delta_content = Some ''Hello'', finish_reason = None\<rparr>,
       Data \<lparr>chunk_id = ''chatcmpl-'' @ taskId, chunk_model = mdl,
              delta_content = Some '' world'', finish_reason = None\<rparr>,
       Data \<lparr>chunk_id = ''chatcmpl-'' @ taskId, chunk_model = mdl,
              delta_content = Some ''!'', finish_reason = None\<rparr>,
       Data \<lparr>chunk_id = ''chatcmpl-'' @ taskId, chunk_model = mdl,
              delta_content = None, finish_reason = Some ''stop''\<rparr>,
       Done],
      d\<lparr>tasks := map (\<lambda>t. if task_id t = taskId
                            then t\<lparr>status := ''success'', duration_ms := durationMs,
                                   cost := number_column (calculateCost mdl 10 3),
                                   completion := Some ''Hello world!'',
                                   tokens_in := Some 10, tokens_out := Some 3,
                                   completed_at := Some now\<rparr>
                            else t) (tasks d)\<rparr>)"
proof -
  let ?st0 = "\<lparr>tokensIn = 0, tokensOut = 0, completionText = [], buffer = [], written = []\<rparr>"
  let ?line = "relay_line parse taskId mdl"
  have sp: "js_split newline (buffer ?st0 @ concat pieces) = lines @ [[]]"
    using js_split_lines [OF assms(1)] assms(2) by simp
  have "newline \<notin> set (buffer ?st0)" by simp
  from relay_reads [OF this, of parse taskId mdl pieces]
  have "relay_anthropic_stream parse taskId mdl pieces = (foldl ?line ?st0 lines)\<lparr>buffer := []\<rparr>"
    unfolding sp relay_anthropic_stream_def by simp
  also have "foldl ?line ?st0 lines = foldl ?line ?st0 (map ((@) ''data: '') [p1, p2, p3, p4, p5, p6])"
    unfolding foldl_relay_line_data [of parse taskId mdl ?st0 lines] assms(3) ..
  also have "\<dots> = \<lparr>tokensIn = 10, tokensOut = 3, completionText = ''Hello world!'', buffer = [],
      written =
        [Data \<lparr>chunk_id = ''chatcmpl-'' @ taskId, chunk_model = mdl,
               delta_content = Some ''Hello'', finish_reason = None\<rparr>,
         Data \<lparr>chunk_id = ''chatcmpl-'' @ taskId, chunk_model = mdl,
               delta_content = Some '' world'', finish_reason = None\<rparr>,
         Data \<lparr>chunk_id = ''chatcmpl-'' @ taskId, chunk_model = mdl,
               delta_content = Some ''!'', finish_reason = None\<rparr>,
         Data \<lparr>chunk_id = ''chatcmpl-'' @ taskId, chunk_model = mdl,
               delta_content = None, finish_reason = Some ''stop''\<rparr>,
         Done]\<rparr>"
  proof -
    from assms(4) have nd: "p1 \<noteq> ''[DONE]''" "p2 \<noteq> ''[DONE]''" "p3 \<noteq> ''[DONE]''"
      "p4 \<noteq> ''[DONE]''" "p5 \<noteq> ''[DONE]''" "p6 \<noteq> ''[DONE]''"
      by auto
    have t: "''Hello'' \<noteq> []" "'' world'' \<noteq> []" "''!'' \<noteq> []" by simp_all
    note steps = relay_message_start [of parse p1, OF assms(5) nd(1)]
      relay_content_block_delta [of parse p2, OF assms(6) nd(2) t(1)]
      relay_content_block_delta [of parse p3, OF assms(7) nd(3) t(2)]
      relay_content_block_delta [of parse p4, OF assms(8) nd(4) t(3)]
      relay_message_delta [of parse p5, OF assms(9) nd(5)]
      relay_message_stop [of parse p6, OF assms(10) nd(6)]
    show ?thesis
      unfolding list.map foldl.simps steps by simp
  qed
  finally have "relay_anthropic_stream parse taskId mdl pieces =
      \<lparr>tokensIn = 10, tokensOut = 3, completionText = ''Hello world!'', buffer = [],
      written =
        [Data \<lparr>chunk_id = ''chatcmpl-'' @ taskId, chunk_model = mdl,
               delta_content = Some ''Hello'', finish_reason = None\<rparr>,
         Data \<lparr>chunk_id = ''chatcmpl-'' @ taskId, chunk_model = mdl,
               delta_content = Some '' world'', finish_reason = None\<rparr>,
         Data \<lparr>chunk_id = ''chatcmpl-'' @ taskId, chunk_model = mdl,
               delta_content = Some ''!'', finish_reason = None\<rparr>,
         Data \<lparr>chunk_id = ''chatcmpl-'' @ taskId, chunk_model = mdl,
               delta_content = None, finish_reason = Some ''stop''\<rparr>,
         Done]\<rparr>"
    by simp
  then show ?thesis
    unfolding stream_anthropic_def finalize_success_def Let_def by simp
qed

theorem stream_anthropic_scenario_witness:
  "list_all (\<lambda>l. newline \<notin> set l) example_lines \<and>
   concat example_pieces = concat (map (\<lambda>l. l @ [newline]) example_lines) \<and>
   length example_pieces = 2 \<and>
   stream_anthropic example_parse ''span-1'' ''claude-3-opus-20240229'' 1000
       ''2026-01-01T00:00:01.000Z'' example_pieces
       \<lparr>accounts = [], tasks = [finished_span\<lparr>status := ''running'', completion := None\<rparr>]\<rparr> =
     ([Data \<lparr>chunk_id = ''chatcmpl-span-1'', chunk_model = ''claude-3-opus-20240229'',
              delta_content = Some ''Hello'', finish_reason = None\<rparr>,
       Data \<lparr>chunk_id = ''chatcmpl-span-1'', chunk_model = ''claude-3-opus-20240229'',
              delta_content = Some '' world'', finish_reason = None\<rparr>,
       Data \<lparr>chunk_id = ''chatcmpl-span-1'', chunk_model = ''claude-3-opus-20240229'',
              delta_content = Some ''!'', finish_reason = None\<rparr>,
       Data \<lparr>chunk_id = ''chatcmpl-span-1'', chunk_model = ''claude-3-opus-20240229'',
              delta_content = None, finish_reason = Some ''stop''\<rparr>,
       Done],
      \<lparr>accounts = [],
       tasks = [finished_span\<lparr>status := ''success'', duration_ms := 1000,
                  cost := Some (3 / 8000), completion := Some ''Hello world!'',
                  tokens_in := Some 10, tokens_out := Some 3,
                  completed_at := Some ''2026-01-01T00:00:01.000Z''\<rparr>]\<rparr>)"
proof -
  have h1: "list_all (\<lambda>l. newline \<notin> set l) example_lines"
    by (simp add: example_lines_def newline_def)
  have h2: "concat example_pieces = concat (map (\<lambda>l. l @ [newline]) example_lines)"
    by (simp add: example_pieces_def example_lines_def)
  have h3: "filter (prefix ''data: '') example_lines =
      map ((@) ''data: '') [''{start}'', ''{hello}'', ''{world}'', ''{bang}'', ''{usage}'', ''{stop}'']"
    by (simp add: example_lines_def)
  have h4: "''[DONE]'' \<notin> set [''{start}'', ''{hello}'', ''{world}'', ''{bang}'', ''{usage}'', ''{stop}'']"
    by simp
  have p: "example_parse ''{start}'' = Some (message_start 10)"
    "example_parse ''{hello}'' = Some (content_block_delta ''Hello'')"
    "example_parse ''{world}'' = Some (content_block_delta '' world'')"
    "example_parse ''{bang}'' = Some (content_block_delta ''!'')"
    "example_parse ''{usage}'' = Some (message_delta 3)"
    "example_parse ''{stop}'' = Some message_stop"
    by (simp_all add: example_parse_def)
  have c: "number_column (calculateCost ''claude-3-opus-20240229'' 10 3) = Some (3 / 8000)"
    by (simp add: number_column_def calculateCost_def obj_get_def MODEL_COSTS_def)
  have t: "task_id finished_span = ''span-1''"
    by (simp add: finished_span_def)
  have l: "length example_pieces = 2"
    by (simp add: example_pieces_def)
  note run = stream_anthropic_scenario
    [where parse = example_parse and lines = example_lines and pieces = example_pieces
       and ?p1.0 = "''{start}''" and ?p2.0 = "''{hello}''" and ?p3.0 = "''{world}''"
       and ?p4.0 = "''{bang}''" and ?p5.0 = "''{usage}''" and ?p6.0 = "''{stop}''"
       and taskId = "''span-1''" and mdl = "''claude-3-opus-20240229''" and durationMs = 1000
       and now = "''2026-01-01T00:00:01.000Z''"
       and d = "\<lparr>accounts = [],
                  tasks = [finished_span\<lparr>status := ''running'', completion := None\<rparr>]\<rparr>",
     OF h1 h2 h3 h4 p]
  show ?thesis
    using h1 h2 l unfolding run c by (simp add: t)
qed

section \<open>Reading the stream piece by piece\<close>












section \<open>What is stored and what is forwarded\<close>










end
